theory Spec2Isabelle
  imports Complex_Main "HOL-Library.Sublist"
begin

section \<open>The NCC publisher: draft store, payload builder, publish queue\<close>

text \<open>
  A shallow embedding of the parts of \<^verbatim>\<open>ncc_publish.py\<close> that persist drafts and
  their tags, build the canonical payload of a draft, stamp a payload before it is
  published, validate author keys and retry failed publishes from a queue.

  Conventions of the embedding:
  \<^item> a Python \<^verbatim>\<open>str\<close> is a \<open>string\<close>; \<^verbatim>\<open>Optional[str]\<close> is a \<open>string option\<close>;
    Python's unbounded \<^verbatim>\<open>int\<close> is \<open>int\<close>;
  \<^item> a value read from JSON is a \<open>json\<close>; a payload (a Python \<^verbatim>\<open>dict\<close> with string
    keys) is a map from keys to \<open>json\<close> values;
  \<^item> a SQLite table is the list of its rows, a new row being added at the end;
  \<^item> the clock (\<^verbatim>\<open>_now()\<close>), the public-key parser of the SDK, the random draw of
    the back-off and the outcome of a delivery are arguments of the functions that
    use them.
\<close>

subsection \<open>JSON values and payloads\<close>

datatype json =
    JNull
  | JBool bool
  | JInt int
  | JFloat real
  | JStr string
  | JList "json list"
  | JObj "(string \<times> json) list"

type_synonym payload = "string \<rightharpoonup> json"

text \<open>A tag \<^verbatim>\<open>[key, value]\<close> as it stands in a payload.\<close>

definition json_tag :: "string list \<Rightarrow> json" where
  "json_tag tag = JList (map JStr tag)"

subsection \<open>The payload builder\<close>

text \<open>
  \<^verbatim>\<open>_tags_to_map\<close>: \<^verbatim>\<open>mapped.setdefault(key, []).append(value)\<close> for each stored pair,
  first to last.
\<close>

definition setdefault_append ::
  "(string \<rightharpoonup> string list) \<Rightarrow> string \<Rightarrow> string \<Rightarrow> (string \<rightharpoonup> string list)" where
  "setdefault_append mapped key v =
     mapped(key \<mapsto> (case mapped key of None \<Rightarrow> [] | Some vs \<Rightarrow> vs) @ [v])"

fun tags_to_map_loop ::
  "(string \<rightharpoonup> string list) \<Rightarrow> (string \<times> string) list \<Rightarrow> (string \<rightharpoonup> string list)" where
  "tags_to_map_loop mapped [] = mapped"
| "tags_to_map_loop mapped ((key, v) # rest) =
     tags_to_map_loop (setdefault_append mapped key v) rest"

definition tags_to_map :: "(string \<times> string) list \<Rightarrow> (string \<rightharpoonup> string list)" where
  "tags_to_map tags = tags_to_map_loop Map.empty tags"

text \<open>
  The three ways \<^verbatim>\<open>_payload_from_draft\<close> reads the map:
  \<^verbatim>\<open>if key in tag_map: tags_list.append([key, tag_map[key][0]])\<close>,
  \<^verbatim>\<open>for item in tag_map.get(key, []): tags_list.append([key, item])\<close>, and
  \<^verbatim>\<open>tag_map.get("published_at", [None])[0]\<close> followed by a truthiness test.
  Every list that \<^verbatim>\<open>_tags_to_map\<close> stores is non-empty, so \<^verbatim>\<open>[0]\<close> does not raise;
  the empty case is written out all the same.
\<close>

definition first_if_in ::
  "(string \<rightharpoonup> string list) \<Rightarrow> string \<Rightarrow> string list list" where
  "first_if_in tag_map key =
     (case tag_map key of
        None \<Rightarrow> []
      | Some [] \<Rightarrow> []
      | Some (v # _) \<Rightarrow> [[key, v]])"

definition each_of ::
  "(string \<rightharpoonup> string list) \<Rightarrow> string \<Rightarrow> string list list" where
  "each_of tag_map key =
     (case tag_map key of None \<Rightarrow> [] | Some vs \<Rightarrow> map (\<lambda>item. [key, item]) vs)"

definition first_if_truthy ::
  "(string \<rightharpoonup> string list) \<Rightarrow> string \<Rightarrow> string list list" where
  "first_if_truthy tag_map key =
     (case tag_map key of
        None \<Rightarrow> []
      | Some [] \<Rightarrow> []
      | Some (v # _) \<Rightarrow> (if v \<noteq> [] then [[key, v]] else []))"

text \<open>\<^verbatim>\<open>if title: tags_list.append(["title", title])\<close>.\<close>

definition title_entry :: "string option \<Rightarrow> string list list" where
  "title_entry title =
     (case title of None \<Rightarrow> [] | Some t \<Rightarrow> (if t \<noteq> [] then [[''title'', t]] else []))"

definition payload_from_draft ::
  "int \<Rightarrow> string \<Rightarrow> string option \<Rightarrow> string \<Rightarrow> (string \<times> string) list \<Rightarrow> int \<Rightarrow> payload" where
  "payload_from_draft kind d title content tags created_at =
     (let tag_map = tags_to_map tags;
          tags_list =
            [[''d'', d]] @
            (if kind = 30050 then
               title_entry title @
               first_if_truthy tag_map ''published_at'' @
               first_if_in tag_map ''summary'' @
               each_of tag_map ''t'' @
               first_if_in tag_map ''lang'' @
               first_if_in tag_map ''version'' @
               each_of tag_map ''supersedes'' @
               first_if_in tag_map ''license'' @
               each_of tag_map ''authors'' @
               first_if_in tag_map ''eventid''
             else
               first_if_in tag_map ''authoritative'' @
               first_if_in tag_map ''steward'' @
               first_if_in tag_map ''previous'' @
               first_if_in tag_map ''reason'' @
               first_if_in tag_map ''effective_at'' @
               first_if_in tag_map ''eventid'')
      in [''kind'' \<mapsto> JInt kind,
          ''created_at'' \<mapsto> JInt created_at,
          ''tags'' \<mapsto> JList (map json_tag tags_list),
          ''content'' \<mapsto> JStr content])"

text \<open>
  What the stored pairs say, read off the stored list itself: the values stored under
  a key, in stored order; one entry per value; one entry for the first value.
\<close>

definition stored_values :: "string \<Rightarrow> (string \<times> string) list \<Rightarrow> string list" where
  "stored_values key tags = map snd (filter (\<lambda>kv. fst kv = key) tags)"

definition entry_per_value :: "string \<Rightarrow> (string \<times> string) list \<Rightarrow> string list list" where
  "entry_per_value key tags = map (\<lambda>v. [key, v]) (stored_values key tags)"

definition entry_of_first :: "string \<Rightarrow> (string \<times> string) list \<Rightarrow> string list list" where
  "entry_of_first key tags = map (\<lambda>v. [key, v]) (take 1 (stored_values key tags))"

definition entry_of_first_nonempty ::
  "string \<Rightarrow> (string \<times> string) list \<Rightarrow> string list list" where
  "entry_of_first_nonempty key tags =
     map (\<lambda>v. [key, v]) (filter (\<lambda>v. v \<noteq> []) (take 1 (stored_values key tags)))"

subsection \<open>Stamping a payload before it is published\<close>

text \<open>Python's \<^verbatim>\<open>str\<close> of an integer: its decimal digits, after a minus sign when negative.\<close>

definition digit_char :: "nat \<Rightarrow> char" where
  "digit_char n = ''0123456789'' ! n"

fun str_nat :: "nat \<Rightarrow> string" where
  "str_nat n = (if n < 10 then [digit_char n] else str_nat (n div 10) @ [digit_char (n mod 10)])"

declare str_nat.simps [simp del]

definition str_int :: "int \<Rightarrow> string" where
  "str_int i = (if i < 0 then CHR ''-'' # str_nat (nat (- i)) else str_nat (nat i))"

text \<open>
  \<^verbatim>\<open>_ensure_tags\<close>: \<^verbatim>\<open>payload.get("tags", [])\<close> when that is a list, the empty list
  otherwise.
\<close>

definition ensure_tags :: "payload \<Rightarrow> json list" where
  "ensure_tags p = (case p ''tags'' of Some (JList ts) \<Rightarrow> ts | _ \<Rightarrow> [])"

text \<open>
  \<^verbatim>\<open>_upsert_single_tag\<close> keeps \<^verbatim>\<open>tag\<close> when
  \<^verbatim>\<open>isinstance(tag, list) and tag and tag[0] != key\<close>, then appends \<^verbatim>\<open>[key, value]\<close>.
\<close>

definition keeps_tag :: "string \<Rightarrow> json \<Rightarrow> bool" where
  "keeps_tag key tag = (case tag of JList (k # _) \<Rightarrow> k \<noteq> JStr key | _ \<Rightarrow> False)"

definition upsert_single_tag :: "json list \<Rightarrow> string \<Rightarrow> string \<Rightarrow> json list" where
  "upsert_single_tag tags key v = filter (keeps_tag key) tags @ [JList [JStr key, JStr v]]"

text \<open>
  \<^verbatim>\<open>payload.get("kind") == 30050\<close>: Python compares numbers by value, so the float
  \<^verbatim>\<open>30050.0\<close> of a JSON file passes the test as the integer does.
\<close>

definition kind_is_document :: "payload \<Rightarrow> bool" where
  "kind_is_document p = (p ''kind'' = Some (JInt 30050) \<or> p ''kind'' = Some (JFloat 30050))"

text \<open>
  \<^verbatim>\<open>_prepare_payload_for_publish\<close> mutates the payload and returns \<^verbatim>\<open>now\<close>; the model
  returns the payload after the call together with that value.
\<close>

definition prepare_payload_for_publish :: "payload \<Rightarrow> int \<Rightarrow> payload \<times> int" where
  "prepare_payload_for_publish p now =
     (let p1 = p(''created_at'' \<mapsto> JInt now);
          tags = ensure_tags p1;
          tags' = (if kind_is_document p1
                   then upsert_single_tag tags ''published_at'' (str_int now)
                   else tags)
      in (p1(''tags'' \<mapsto> JList tags'), now))"

definition finalize_payload_publish :: "payload \<Rightarrow> string \<Rightarrow> payload" where
  "finalize_payload_publish p event_id =
     p(''tags'' \<mapsto> JList (upsert_single_tag (ensure_tags p) ''eventid'' event_id))"

text \<open>
  What a delivery does. \<^verbatim>\<open>Published\<close> carries the event id that was returned;
  \<^verbatim>\<open>Raised\<close> carries \<^verbatim>\<open>str(exc)\<close> of an exception that derives from \<^verbatim>\<open>Exception\<close>;
  \<^verbatim>\<open>Exited\<close> carries the message of a \<^verbatim>\<open>SystemExit\<close>, which the publisher raises
  itself (no relay, no private key, a draft that is gone, a malformed payload) and
  which does not derive from \<^verbatim>\<open>Exception\<close>.
\<close>

datatype outcome = Published string | Raised string | Exited string

text \<open>
  \<^verbatim>\<open>_attempt_publish_payload\<close>: stamp the payload, then build the event from it and send
  it. Building and sending belong to the SDK: \<open>deliver\<close> stands for
  \<^verbatim>\<open>asyncio.run(publish_event(build_event_from_json(payload), ...))\<close>. The result is
  the payload as the call leaves it and the outcome.
\<close>

definition attempt_publish_payload ::
  "(payload \<Rightarrow> outcome) \<Rightarrow> payload \<Rightarrow> int \<Rightarrow> payload \<times> outcome" where
  "attempt_publish_payload deliver p now =
     (let p' = fst (prepare_payload_for_publish p now) in (p', deliver p'))"

text \<open>
  \<^verbatim>\<open>_attempt_publish_json\<close>: the payload loaded from the file is published; on success
  it is finalized and written back (\<open>Some\<close> the new file content), and on a raise the
  file is left as it was (\<open>None\<close>).
\<close>

definition attempt_publish_json ::
  "(payload \<Rightarrow> outcome) \<Rightarrow> payload \<Rightarrow> int \<Rightarrow> payload option \<times> outcome" where
  "attempt_publish_json deliver loaded now =
     (case attempt_publish_payload deliver loaded now of
        (p', Published event_id) \<Rightarrow> (Some (finalize_payload_publish p' event_id), Published event_id)
      | (p', other) \<Rightarrow> (None, other))"

subsection \<open>The draft store\<close>

record draft_row =
  dr_id :: int
  dr_kind :: int
  dr_d :: string
  dr_title :: "string option"
  dr_content :: string
  dr_created_at :: int
  dr_updated_at :: int
  dr_published_at :: "int option"
  dr_event_id :: "string option"
  dr_status :: "string option"

record tag_row =
  tg_draft_id :: int
  tg_key :: string
  tg_value :: string

record db =
  db_drafts :: "draft_row list"
  db_tags :: "tag_row list"

text \<open>SQL's \<^verbatim>\<open>coalesce(?, column)\<close>: the argument unless it is NULL.\<close>

definition coalesce :: "'a option \<Rightarrow> 'a option \<Rightarrow> 'a option" where
  "coalesce supplied stored = (case supplied of None \<Rightarrow> stored | Some v \<Rightarrow> Some v)"

definition db_set_tags :: "db \<Rightarrow> int \<Rightarrow> (string \<times> string) list \<Rightarrow> db" where
  "db_set_tags s draft_id tags =
     s\<lparr>db_tags :=
         filter (\<lambda>r. tg_draft_id r \<noteq> draft_id) (db_tags s) @
         map (\<lambda>(key, v). \<lparr>tg_draft_id = draft_id, tg_key = key, tg_value = v\<rparr>) tags\<rparr>"

definition db_get_tags :: "db \<Rightarrow> int \<Rightarrow> (string \<times> string) list" where
  "db_get_tags s draft_id =
     map (\<lambda>r. (tg_key r, tg_value r)) (filter (\<lambda>r. tg_draft_id r = draft_id) (db_tags s))"

text \<open>
  \<^verbatim>\<open>_db_insert_draft\<close>. The column \<^verbatim>\<open>event_id\<close> is not in the insert and stays NULL.
  The key of the new row is the database's choice: \<open>lastrowid\<close> is the value of
  \<^verbatim>\<open>cur.lastrowid\<close> after the insert. The function has no test on any of its
  arguments.
\<close>

definition db_insert_draft ::
  "db \<Rightarrow> int \<Rightarrow> int \<Rightarrow> int \<Rightarrow> string \<Rightarrow> string option \<Rightarrow> string \<Rightarrow>
   (string \<times> string) list \<Rightarrow> string \<Rightarrow> int option \<Rightarrow> db \<times> int" where
  "db_insert_draft s lastrowid now kind d title content tags status published_at =
     (let draft_id = lastrowid;
          row = \<lparr>dr_id = draft_id, dr_kind = kind, dr_d = d, dr_title = title,
                 dr_content = content, dr_created_at = now, dr_updated_at = now,
                 dr_published_at = published_at, dr_event_id = None,
                 dr_status = Some status\<rparr>
      in (db_set_tags (s\<lparr>db_drafts := db_drafts s @ [row]\<rparr>) draft_id tags, draft_id))"

definition update_row ::
  "int \<Rightarrow> string option \<Rightarrow> string \<Rightarrow> string option \<Rightarrow> int option \<Rightarrow> string option \<Rightarrow>
   draft_row \<Rightarrow> draft_row" where
  "update_row now title content status published_at event_id r =
     r\<lparr>dr_title := title, dr_content := content, dr_updated_at := now,
       dr_published_at := coalesce published_at (dr_published_at r),
       dr_event_id := coalesce event_id (dr_event_id r),
       dr_status := coalesce status (dr_status r)\<rparr>"

definition db_update_draft ::
  "db \<Rightarrow> int \<Rightarrow> int \<Rightarrow> string option \<Rightarrow> string \<Rightarrow> (string \<times> string) list \<Rightarrow>
   string option \<Rightarrow> int option \<Rightarrow> string option \<Rightarrow> db" where
  "db_update_draft s now draft_id title content tags status published_at event_id =
     db_set_tags
       (s\<lparr>db_drafts :=
            map (\<lambda>r. if dr_id r = draft_id
                      then update_row now title content status published_at event_id r
                      else r)
              (db_drafts s)\<rparr>)
       draft_id tags"

text \<open>
  \<^verbatim>\<open>_db_get_latest_draft\<close>: the rows of that kind and identifier, ordered by
  \<^verbatim>\<open>updated_at\<close> descending, first row only.
\<close>

definition db_get_latest_draft :: "db \<Rightarrow> int \<Rightarrow> string \<Rightarrow> draft_row option" where
  "db_get_latest_draft s kind d =
     (case sort_key (\<lambda>r. - dr_updated_at r)
             (filter (\<lambda>r. dr_kind r = kind \<and> dr_d r = d) (db_drafts s)) of
        [] \<Rightarrow> None
      | r # _ \<Rightarrow> Some r)"

subsection \<open>Validating author keys\<close>

datatype error = ValueError string | SystemExit string

text \<open>
  A string is the list of its code points, for code points below 256. Python's
  \<^verbatim>\<open>str.strip()\<close> removes the characters for which \<^verbatim>\<open>str.isspace()\<close> holds; below 256
  these are the code points 9 to 13, 28 to 32, 133 and 160.
\<close>

definition is_space :: "char \<Rightarrow> bool" where
  "is_space c =
     (let n = (of_char c :: nat)
      in (9 \<le> n \<and> n \<le> 13) \<or> (28 \<le> n \<and> n \<le> 32) \<or> n = 133 \<or> n = 160)"

definition strip :: "string \<Rightarrow> string" where
  "strip s = rev (dropWhile is_space (rev (dropWhile is_space s)))"

text \<open>\<^verbatim>\<open>sep.join(items)\<close>.\<close>

fun join :: "string \<Rightarrow> string list \<Rightarrow> string" where
  "join sep [] = []"
| "join sep [x] = x"
| "join sep (x # y # rest) = x @ sep @ join sep (y # rest)"

text \<open>
  The loop of \<^verbatim>\<open>_validate_author_keys\<close> over the normalized values, with the list
  \<^verbatim>\<open>errors\<close> as accumulator. \<open>parse_ok value\<close> says that \<^verbatim>\<open>PublicKey.parse(value)\<close> of the
  SDK returns and does not raise.
\<close>

fun author_errors :: "(string \<Rightarrow> bool) \<Rightarrow> string list \<Rightarrow> string list \<Rightarrow> string list" where
  "author_errors parse_ok errors [] = errors"
| "author_errors parse_ok errors (v # rest) =
     (if prefix ''nsec'' v
      then author_errors parse_ok (errors @ [v @ '' looks like a secret key (nsec)'']) rest
      else if \<not> parse_ok v
      then author_errors parse_ok (errors @ [v @ '' is not a valid npub or hex public key'']) rest
      else author_errors parse_ok errors rest)"

definition normalize_authors :: "string list \<Rightarrow> string list" where
  "normalize_authors authors = map strip (filter (\<lambda>item. item \<noteq> [] \<and> strip item \<noteq> []) authors)"

definition validate_author_keys ::
  "(string \<Rightarrow> bool) \<Rightarrow> string list option \<Rightarrow> error + string list" where
  "validate_author_keys parse_ok authors =
     (case authors of
        None \<Rightarrow> Inr []
      | Some [] \<Rightarrow> Inr []
      | Some (a # as) \<Rightarrow>
          (let normalized = normalize_authors (a # as)
           in if normalized = [] then Inr []
              else (let errors = author_errors parse_ok [] normalized
                    in if errors \<noteq> []
                       then Inl (ValueError
                              (''Authors must be npub or hex public keys. Invalid entries: '' @
                               join ''; '' errors))
                       else Inr normalized)))"

text \<open>
  What the validation is said to do, read off the normalized values: a value offends
  when it starts with \<^verbatim>\<open>nsec\<close> or does not parse as a public key, and the message has
  one entry for each offending value, which begins with the value.
\<close>

definition offending :: "(string \<Rightarrow> bool) \<Rightarrow> string \<Rightarrow> bool" where
  "offending parse_ok v = (prefix ''nsec'' v \<or> \<not> parse_ok v)"

definition describe_offender :: "string \<Rightarrow> string" where
  "describe_offender v =
     v @ (if prefix ''nsec'' v then '' looks like a secret key (nsec)''
          else '' is not a valid npub or hex public key'')"

definition invalid_authors_message :: "string list \<Rightarrow> string" where
  "invalid_authors_message bad =
     ''Authors must be npub or hex public keys. Invalid entries: '' @
     join ''; '' (map describe_offender bad)"

text \<open>\<^verbatim>\<open>_ncc_tags_from_inputs\<close>; \<open>truthy_tag\<close> is its \<^verbatim>\<open>if value: tags.append((key, value))\<close>.\<close>

definition truthy_tag :: "string \<Rightarrow> string option \<Rightarrow> (string \<times> string) list" where
  "truthy_tag key v = (case v of None \<Rightarrow> [] | Some x \<Rightarrow> (if x \<noteq> [] then [(key, x)] else []))"

definition ncc_tags_from_inputs ::
  "string option \<Rightarrow> string list \<Rightarrow> string option \<Rightarrow> string option \<Rightarrow> string list \<Rightarrow>
   string option \<Rightarrow> string list \<Rightarrow> int option \<Rightarrow> (string \<times> string) list" where
  "ncc_tags_from_inputs summary topics lang version supersedes license_id authors published_at =
     truthy_tag ''summary'' summary @
     map (Pair ''t'') topics @
     truthy_tag ''lang'' lang @
     truthy_tag ''version'' version @
     map (Pair ''supersedes'') supersedes @
     truthy_tag ''license'' license_id @
     map (Pair ''authors'') authors @
     (case published_at of None \<Rightarrow> [] | Some t \<Rightarrow> [(''published_at'', str_int t)])"

text \<open>\<^verbatim>\<open>_normalize_optional_str\<close>.\<close>

definition normalize_optional_str :: "string option \<Rightarrow> string option" where
  "normalize_optional_str v =
     (case v of None \<Rightarrow> None | Some x \<Rightarrow> (if strip x = [] then None else Some (strip x)))"

text \<open>\<^verbatim>\<open>text.split(sep)\<close> for a separator of one character.\<close>

fun split_on :: "char \<Rightarrow> string \<Rightarrow> string list" where
  "split_on sep [] = [[]]"
| "split_on sep (c # cs) =
     (if c = sep then [] # split_on sep cs
      else (case split_on sep cs of
              [] \<Rightarrow> [[c]]
            | piece # pieces \<Rightarrow> (c # piece) # pieces))"

text \<open>\<^verbatim>\<open>_parse_list_value\<close> and \<^verbatim>\<open>_format_list_default\<close>.\<close>

definition parse_list_value :: "string \<Rightarrow> string list" where
  "parse_list_value raw =
     (if raw = [] then []
      else map strip (filter (\<lambda>item. strip item \<noteq> []) (split_on CHR '','' raw)))"

definition format_list_default :: "string list option \<Rightarrow> string option" where
  "format_list_default vals =
     (case vals of None \<Rightarrow> None | Some [] \<Rightarrow> None | Some (v # vs) \<Rightarrow> Some (join '', '' (v # vs)))"

text \<open>
  \<^verbatim>\<open>_prompt_value(label, default, required=False)\<close>, which returns after one pass of
  its loop: the line that \<^verbatim>\<open>input\<close> returned, stripped, or the default when that is
  empty and a default was given.
\<close>

definition prompt_value_optional :: "string option \<Rightarrow> string \<Rightarrow> string" where
  "prompt_value_optional dflt typed =
     (let v = strip typed
      in if v = [] then (case dflt of None \<Rightarrow> v | Some d \<Rightarrow> d) else v)"

text \<open>\<^verbatim>\<open>tag_map.get(key, [None])[0]\<close>.\<close>

definition first_or_none :: "(string \<rightharpoonup> string list) \<Rightarrow> string \<Rightarrow> string option" where
  "first_or_none tag_map key =
     (case tag_map key of None \<Rightarrow> None | Some [] \<Rightarrow> None | Some (v # _) \<Rightarrow> Some v)"

text \<open>\<^verbatim>\<open>text.replace(old, new, 1)\<close> for a non-empty \<^verbatim>\<open>old\<close>.\<close>

fun replace_first :: "string \<Rightarrow> string \<Rightarrow> string \<Rightarrow> string" where
  "replace_first old new [] = []"
| "replace_first old new (c # cs) =
     (if prefix old (c # cs) then new @ drop (length old) (c # cs)
      else c # replace_first old new cs)"

text \<open>
  What the user gives the command \<^verbatim>\<open>/revise-ncc\<close> after the import: the title that the
  title prompt returned, the content read back from the editor's file, and the lines
  typed at the seven prompts for tag values.
\<close>

record revise_answers =
  ans_title :: string
  ans_content :: string
  ans_summary :: string
  ans_topics :: string
  ans_lang :: string
  ans_version :: string
  ans_supersedes :: string
  ans_license :: string
  ans_authors :: string

text \<open>
  The command \<^verbatim>\<open>/revise-ncc\<close> of the command loop for an identifier that has no stored
  draft, from the insert of the imported JSON to its end. The arguments \<open>d_value\<close>,
  \<open>title_seed\<close>, \<open>content_seed\<close> and \<open>tags\<close> are the values of the variables
  \<^verbatim>\<open>d_value\<close>, \<^verbatim>\<open>title_value\<close>, \<^verbatim>\<open>content_seed\<close> and \<^verbatim>\<open>tags\<close> at the insert: the
  identifier after formatting, and the title, content and tags read from the imported
  JSON. The draft is inserted with the imported tags first; the authors are validated
  after the prompts; the handler of \<^verbatim>\<open>ValueError\<close> prints the message and ends the
  command. The result is the store as the command leaves it and the error that ended
  it, if one did.
\<close>

definition revise_ncc_import ::
  "(string \<Rightarrow> bool) \<Rightarrow> db \<Rightarrow> int \<Rightarrow> int \<Rightarrow> int \<Rightarrow> string \<Rightarrow> string option \<Rightarrow> string \<Rightarrow>
   (string \<times> string) list \<Rightarrow> revise_answers \<Rightarrow> db \<times> (error + unit)" where
  "revise_ncc_import parse_ok s lastrowid now now' d_value title_seed content_seed tags
     answers =
     (let (s1, draft_id) = db_insert_draft s lastrowid now 30050 d_value title_seed
                             content_seed tags ''draft'' None;
          tag_map = tags_to_map tags;
          title_value = ans_title answers;
          content = ans_content answers;
          summary = prompt_value_optional (first_or_none tag_map ''summary'')
                      (ans_summary answers);
          topics = prompt_value_optional (format_list_default (tag_map ''t''))
                     (ans_topics answers);
          lang = prompt_value_optional (first_or_none tag_map ''lang'') (ans_lang answers);
          version = prompt_value_optional (first_or_none tag_map ''version'')
                      (ans_version answers);
          supersedes = prompt_value_optional (format_list_default (tag_map ''supersedes''))
                         (ans_supersedes answers);
          license_id = prompt_value_optional (first_or_none tag_map ''license'')
                         (ans_license answers);
          authors = prompt_value_optional (format_list_default (tag_map ''authors''))
                      (ans_authors answers)
      in case validate_author_keys parse_ok (Some (parse_list_value authors)) of
           Inl e \<Rightarrow> (s1, Inl e)
         | Inr authors_list \<Rightarrow>
             (let content' = replace_first ''# Title'' (''# '' @ title_value) content;
                  tags' = ncc_tags_from_inputs
                            (normalize_optional_str (Some summary))
                            (parse_list_value topics)
                            (normalize_optional_str (Some lang))
                            (normalize_optional_str (Some version))
                            (parse_list_value supersedes)
                            (normalize_optional_str (Some license_id))
                            authors_list None
              in (db_update_draft s1 now' draft_id (Some title_value) content' tags'
                    None None None, Inr ())))"

subsection \<open>The back-off delay\<close>

text \<open>
  Python's \<^verbatim>\<open>float\<close> is the IEEE 754 double. \<open>binary64 x\<close> is the double nearest to the
  real number \<open>x\<close>, ties going to the even significand: \<open>x\<close> is rounded to a multiple of
  \<open>2\<close> to the power \<open>ulp_exponent x\<close>, which leaves a significand of 53 bits (fewer
  below \<open>2 powi (-1022)\<close>, where doubles are evenly spaced). Overflow is not modelled:
  every number rounded in this development is below \<open>2 ^ 13\<close>. An arithmetic operation
  on doubles returns the \<open>binary64\<close> of the exact result.
\<close>

definition round_half_even :: "real \<Rightarrow> int" where
  "round_half_even y =
     (let f = \<lfloor>y\<rfloor>; r = y - of_int f
      in if r < 1 / 2 then f
         else if 1 / 2 < r then f + 1
         else if even f then f else f + 1)"

definition ulp_exponent :: "real \<Rightarrow> int" where
  "ulp_exponent x = max \<lfloor>log 2 \<bar>x\<bar>\<rfloor> (- 1022) - 52"

definition binary64 :: "real \<Rightarrow> real" where
  "binary64 x =
     (if x = 0 then 0
      else sgn x * of_int (round_half_even (\<bar>x\<bar> / 2 powi ulp_exponent x)) *
           2 powi ulp_exponent x)"

text \<open>Python's \<^verbatim>\<open>int\<close> of a float: truncation towards zero.\<close>

definition py_int :: "real \<Rightarrow> int" where
  "py_int x = (if 0 \<le> x then \<lfloor>x\<rfloor> else \<lceil>x\<rceil>)"

definition QUEUE_MAX_ATTEMPTS :: int where
  "QUEUE_MAX_ATTEMPTS = 5"

definition QUEUE_BASE_DELAY :: int where
  "QUEUE_BASE_DELAY = 30"

definition QUEUE_MAX_DELAY :: int where
  "QUEUE_MAX_DELAY = 3600"

text \<open>The literal \<^verbatim>\<open>0.2\<close> denotes the double nearest to one fifth.\<close>

definition QUEUE_JITTER :: real where
  "QUEUE_JITTER = binary64 (1 / 5)"

text \<open>The integer \<^verbatim>\<open>base\<close> of \<^verbatim>\<open>_compute_retry_delay\<close>, before the jitter.\<close>

definition retry_base :: "int \<Rightarrow> int" where
  "retry_base attempts =
     min QUEUE_MAX_DELAY (QUEUE_BASE_DELAY * 2 ^ nat (max (attempts - 1) 0))"

text \<open>
  \<^verbatim>\<open>_compute_retry_delay\<close>. The argument \<open>u\<close> is the double that
  \<^verbatim>\<open>random.uniform(-_QUEUE_JITTER, _QUEUE_JITTER)\<close> returned: a number \<open>N\<close> with
  \<open>- QUEUE_JITTER \<le> N \<le> QUEUE_JITTER\<close>, as the library documents.
\<close>

definition retry_jitter :: "real \<Rightarrow> real" where
  "retry_jitter u = binary64 (1 + u)"

definition compute_retry_delay :: "int \<Rightarrow> real \<Rightarrow> int" where
  "compute_retry_delay attempts u =
     max 1 (py_int (binary64 (of_int (retry_base attempts) * retry_jitter u)))"

subsection \<open>The publish queue\<close>

record queue_row =
  q_id :: int
  q_task_id :: string
  q_config_path :: "string option"
  q_task_type :: string
  q_draft_id :: "int option"
  q_json_path :: "string option"
  q_payload :: "string option"
  q_relays :: "string option"
  q_attempts :: int
  q_max_attempts :: int
  q_next_attempt_at :: int
  q_created_at :: int
  q_last_error :: "string option"

text \<open>
  The worker is started with \<^verbatim>\<open>print\<close> as its \<^verbatim>\<open>output\<close> by the command loop and with no
  \<^verbatim>\<open>output\<close> by the full-screen interface. The state of the queue is its table and the
  lines \<^verbatim>\<open>output\<close> was called with.
\<close>

datatype sink = Print

record queue_state =
  qs_rows :: "queue_row list"
  qs_printed :: "string list"

text \<open>\<^verbatim>\<open>_queue_notice\<close>: \<^verbatim>\<open>if output: output(message)\<close>.\<close>

definition queue_notice :: "sink option \<Rightarrow> string \<Rightarrow> string list \<Rightarrow> string list" where
  "queue_notice output message printed =
     (case output of None \<Rightarrow> printed | Some Print \<Rightarrow> printed @ [message])"

text \<open>
  The query of \<^verbatim>\<open>_process_publish_queue_db\<close>:
  \<^verbatim>\<open>where next_attempt_at <= ? order by next_attempt_at asc limit 1\<close>. Rows with the same
  \<^verbatim>\<open>next_attempt_at\<close> come in the order of the table (SQLite reads them from the index
  on \<^verbatim>\<open>next_attempt_at\<close>, whose entries with equal keys are in rowid order), which is
  what the stable \<open>sort_key\<close> does.
\<close>

definition select_due :: "queue_row list \<Rightarrow> int \<Rightarrow> queue_row option" where
  "select_due rows now =
     (case sort_key q_next_attempt_at (filter (\<lambda>r. q_next_attempt_at r \<le> now) rows) of
        [] \<Rightarrow> None
      | row # _ \<Rightarrow> Some row)"

definition delete_task :: "int \<Rightarrow> queue_row list \<Rightarrow> queue_row list" where
  "delete_task i rows = filter (\<lambda>r. q_id r \<noteq> i) rows"

definition reschedule_task ::
  "int \<Rightarrow> int \<Rightarrow> int \<Rightarrow> string \<Rightarrow> queue_row list \<Rightarrow> queue_row list" where
  "reschedule_task i attempts next_attempt_at exc rows =
     map (\<lambda>r. if q_id r = i
               then r\<lparr>q_attempts := attempts, q_next_attempt_at := next_attempt_at,
                      q_last_error := Some exc\<rparr>
               else r) rows"

text \<open>
  \<^verbatim>\<open>_process_publish_queue_db\<close>. \<open>run row\<close> is the outcome of
  \<^verbatim>\<open>_run_publish_task(_queue_row_to_task(row))\<close>; \<open>now\<close> is the clock at the query and
  \<open>now'\<close> the clock when the retry is scheduled; \<open>u\<close> is the random draw of the back-off.
  The handler is \<^verbatim>\<open>except Exception\<close>, so a \<^verbatim>\<open>SystemExit\<close> of the task leaves the
  function (\<open>Inl\<close>) with the table as it was.
\<close>

definition process_publish_queue_db ::
  "(queue_row \<Rightarrow> outcome) \<Rightarrow> real \<Rightarrow> sink option \<Rightarrow> int \<Rightarrow> int \<Rightarrow> queue_state \<Rightarrow>
   queue_state \<times> (error + bool)" where
  "process_publish_queue_db run u output now now' s =
     (case select_due (qs_rows s) now of
        None \<Rightarrow> (s, Inr False)
      | Some row \<Rightarrow>
          (case run row of
             Published event_id \<Rightarrow>
               (\<lparr>qs_rows = delete_task (q_id row) (qs_rows s),
                 qs_printed = queue_notice output
                   (''Queued publish succeeded (event '' @ event_id @ '').'') (qs_printed s)\<rparr>,
                Inr True)
           | Exited msg \<Rightarrow> (s, Inl (SystemExit msg))
           | Raised exc \<Rightarrow>
               (let attempts = q_attempts row + 1;
                    max_attempts = q_max_attempts row
                in if attempts \<ge> max_attempts
                   then
                     (\<lparr>qs_rows = delete_task (q_id row) (qs_rows s),
                       qs_printed = queue_notice output
                         (''Queued publish failed permanently after '' @ str_int attempts @
                          '' attempts: '' @ exc) (qs_printed s)\<rparr>,
                      Inr True)
                   else
                     (let delay = compute_retry_delay (attempts + 1) u;
                          next_attempt_at = now' + delay
                      in (\<lparr>qs_rows = reschedule_task (q_id row) attempts next_attempt_at exc
                                       (qs_rows s),
                           qs_printed = queue_notice output
                             (''Queued publish failed (attempt '' @ str_int attempts @ ''/'' @
                              str_int max_attempts @ ''): '' @ exc) (qs_printed s)\<rparr>,
                          Inr True)))))"

subsection \<open>Sample data\<close>

text \<open>
  A store with two revisions of the document \<^verbatim>\<open>ncc-01\<close> and a succession record for
  it, a user who accepts the default at every prompt of \<^verbatim>\<open>/revise-ncc\<close>, and a queued
  task with given id, attempts, ceiling and due time; the concrete instances below are
  stated on them.
\<close>

definition sample_doc :: draft_row where
  "sample_doc =
     \<lparr>dr_id = 1, dr_kind = 30050, dr_d = ''ncc-01'', dr_title = Some ''Old'',
      dr_content = ''old'', dr_created_at = 100, dr_updated_at = 100,
      dr_published_at = Some 150, dr_event_id = None, dr_status = Some ''draft''\<rparr>"

definition sample_succ :: draft_row where
  "sample_succ =
     \<lparr>dr_id = 2, dr_kind = 30051, dr_d = ''ncc-01'', dr_title = None,
      dr_content = ''ack'', dr_created_at = 400, dr_updated_at = 400,
      dr_published_at = None, dr_event_id = None, dr_status = Some ''draft''\<rparr>"

definition sample_doc_rev :: draft_row where
  "sample_doc_rev =
     \<lparr>dr_id = 3, dr_kind = 30050, dr_d = ''ncc-01'', dr_title = Some ''Newer'',
      dr_content = ''newer'', dr_created_at = 300, dr_updated_at = 300,
      dr_published_at = None, dr_event_id = None, dr_status = Some ''draft''\<rparr>"

definition sample_db :: db where
  "sample_db =
     \<lparr>db_drafts = [sample_doc, sample_succ, sample_doc_rev],
      db_tags = [\<lparr>tg_draft_id = 1, tg_key = ''lang'', tg_value = ''en''\<rparr>,
                 \<lparr>tg_draft_id = 2, tg_key = ''steward'', tg_value = ''x''\<rparr>,
                 \<lparr>tg_draft_id = 1, tg_key = ''t'', tg_value = ''old''\<rparr>]\<rparr>"

definition accept_defaults :: revise_answers where
  "accept_defaults =
     \<lparr>ans_title = ''Imported'', ans_content = ''seed'', ans_summary = [], ans_topics = [],
      ans_lang = [], ans_version = [], ans_supersedes = [], ans_license = [],
      ans_authors = []\<rparr>"

definition sample_task :: "int \<Rightarrow> int \<Rightarrow> int \<Rightarrow> int \<Rightarrow> queue_row" where
  "sample_task i attempts max_attempts next_attempt_at =
     \<lparr>q_id = i, q_task_id = ''task'', q_config_path = None, q_task_type = ''payload'',
      q_draft_id = None, q_json_path = None, q_payload = Some ''{}'', q_relays = Some ''[]'',
      q_attempts = attempts, q_max_attempts = max_attempts,
      q_next_attempt_at = next_attempt_at, q_created_at = 0, q_last_error = None\<rparr>"

section \<open>Properties\<close>

subsection \<open>The payload builder\<close>

lemma tags_to_map_loop_lookup:
  "tags_to_map_loop mapped tags key =
     (if stored_values key tags = [] then mapped key
      else Some ((case mapped key of None \<Rightarrow> [] | Some vs \<Rightarrow> vs) @ stored_values key tags))"
proof (induction tags arbitrary: mapped)
  case Nil
  show ?case by (simp add: stored_values_def)
next
  case (Cons kv rest)
  obtain k v where kv: "kv = (k, v)" by (cases kv)
  show ?case
    unfolding kv tags_to_map_loop.simps Cons.IH
    by (simp add: stored_values_def setdefault_append_def)
qed

lemma tags_to_map_lookup:
  "tags_to_map tags key =
     (if stored_values key tags = [] then None else Some (stored_values key tags))"
  by (simp add: tags_to_map_def tags_to_map_loop_lookup)

lemma first_if_in_stored:
  "first_if_in (tags_to_map tags) key = entry_of_first key tags"
  by (cases "stored_values key tags")
     (simp_all add: first_if_in_def entry_of_first_def tags_to_map_lookup)

lemma each_of_stored:
  "each_of (tags_to_map tags) key = entry_per_value key tags"
  by (simp add: each_of_def entry_per_value_def tags_to_map_lookup)

lemma first_if_truthy_stored:
  "first_if_truthy (tags_to_map tags) key = entry_of_first_nonempty key tags"
  by (cases "stored_values key tags")
     (simp_all add: first_if_truthy_def entry_of_first_nonempty_def tags_to_map_lookup)

text \<open>
  C1. For a document draft (kind 30050) the builder emits the tags in the fixed order
  \<open>d\<close>, \<open>title\<close>, \<open>published_at\<close>, \<open>summary\<close>, one \<open>t\<close> per stored topic in stored
  order, \<open>lang\<close>, \<open>version\<close>, one \<open>supersedes\<close> per stored value, \<open>license\<close>, one
  \<open>authors\<close> per stored value, \<open>eventid\<close>. A single-valued key gives at most one
  entry, made from the first value stored under it, and a key with no stored value
  gives none. (The title and the first \<open>published_at\<close> value are emitted when they are
  non-empty strings.)
\<close>

theorem payload_from_draft_document_order:
  "payload_from_draft 30050 d title content tags created_at ''tags'' =
     Some (JList (map json_tag
       ([[''d'', d]] @
        title_entry title @
        entry_of_first_nonempty ''published_at'' tags @
        entry_of_first ''summary'' tags @
        entry_per_value ''t'' tags @
        entry_of_first ''lang'' tags @
        entry_of_first ''version'' tags @
        entry_per_value ''supersedes'' tags @
        entry_of_first ''license'' tags @
        entry_per_value ''authors'' tags @
        entry_of_first ''eventid'' tags)))"
  by (simp add: payload_from_draft_def Let_def first_if_in_stored each_of_stored
      first_if_truthy_stored)

theorem payload_from_draft_document_order_witness:
  "payload_from_draft 30050 ''ncc-07'' (Some ''Foo'') ''body''
     [(''published_at'', ''1700000000''), (''t'', ''a''), (''t'', ''b''),
      (''authors'', ''npub1x'')] 1700000100 ''tags'' =
   Some (JList [JList [JStr ''d'', JStr ''ncc-07''], JList [JStr ''title'', JStr ''Foo''],
                JList [JStr ''published_at'', JStr ''1700000000''],
                JList [JStr ''t'', JStr ''a''], JList [JStr ''t'', JStr ''b''],
                JList [JStr ''authors'', JStr ''npub1x'']])"
  using payload_from_draft_document_order
          [of "''ncc-07''" "Some ''Foo''" "''body''"
              "[(''published_at'', ''1700000000''), (''t'', ''a''), (''t'', ''b''),
                (''authors'', ''npub1x'')]" 1700000100]
  by (simp add: title_entry_def entry_of_first_nonempty_def entry_of_first_def
      entry_per_value_def stored_values_def json_tag_def)

subsection \<open>Stamping a payload before it is published\<close>

lemma kind_is_document_stamp:
  "kind_is_document (p(''created_at'' \<mapsto> v)) = kind_is_document p"
  by (simp add: kind_is_document_def)

lemma ensure_tags_stamp:
  "ensure_tags (p(''created_at'' \<mapsto> v)) = ensure_tags p"
  by (simp add: ensure_tags_def)

lemma keeps_tag_not_key:
  "keeps_tag key t \<Longrightarrow> t \<noteq> JList (JStr key # rest)"
  by (auto simp: keeps_tag_def)

lemma prepare_created_at:
  "fst (prepare_payload_for_publish p now) ''created_at'' = Some (JInt now)"
  by (simp add: prepare_payload_for_publish_def Let_def)

lemma prepare_tags_document:
  "kind_is_document p \<Longrightarrow>
   fst (prepare_payload_for_publish p now) ''tags'' =
     Some (JList (filter (keeps_tag ''published_at'') (ensure_tags p) @
                  [JList [JStr ''published_at'', JStr (str_int now)]]))"
  by (simp add: prepare_payload_for_publish_def Let_def upsert_single_tag_def
      kind_is_document_stamp ensure_tags_stamp)

lemma str_int_7: "str_int 7 = ''7''"
  by (simp add: str_int_def str_nat.simps digit_char_def)

lemma prepare_moves_published_at:
  "fst (prepare_payload_for_publish
          (payload_from_draft 30050 ''ncc-07'' (Some ''Foo'') ''body''
             [(''published_at'', ''1''), (''summary'', ''s'')] 5) 7) ''tags'' =
     Some (JList [json_tag [''d'', ''ncc-07''], json_tag [''title'', ''Foo''],
                  json_tag [''summary'', ''s''], json_tag [''published_at'', ''7'']])"
  by (simp add: prepare_payload_for_publish_def Let_def upsert_single_tag_def
      payload_from_draft_def tags_to_map_def setdefault_append_def first_if_in_def
      first_if_truthy_def each_of_def title_entry_def kind_is_document_def ensure_tags_def
      keeps_tag_def json_tag_def str_int_7)

lemma attempt_json_written:
  "deliver (fst (prepare_payload_for_publish loaded now)) = Published event_id \<Longrightarrow>
   fst (attempt_publish_json deliver loaded now) =
     Some (finalize_payload_publish (fst (prepare_payload_for_publish loaded now)) event_id)"
  by (simp add: attempt_publish_json_def attempt_publish_payload_def Let_def)

lemma finalize_created_at:
  "finalize_payload_publish p event_id ''created_at'' = p ''created_at''"
  by (simp add: finalize_payload_publish_def)

text \<open>
  C10. Every publish attempt starts by stamping the payload: whatever \<open>created_at\<close> it
  had, it has \<open>now\<close> afterwards, and that stamped payload is what is delivered; for a
  document (kind 30050) the tags afterwards are the tags that were kept, none of which
  is a \<open>published_at\<close> entry, followed by the one entry \<open>["published_at", str(now)]\<close>.
  A JSON file that is published again is written back with the new \<open>created_at\<close>.
  The last conjunct is a payload built from a draft whose \<open>published_at\<close> entry stands
  in the third place before the stamp and in the last place, after \<open>summary\<close>, after
  it.
\<close>

theorem prepare_payload_stamps:
  "fst (prepare_payload_for_publish p now) ''created_at'' = Some (JInt now) \<and>
   attempt_publish_payload deliver p now =
     (fst (prepare_payload_for_publish p now), deliver (fst (prepare_payload_for_publish p now))) \<and>
   (kind_is_document p \<longrightarrow>
      fst (prepare_payload_for_publish p now) ''tags'' =
        Some (JList (filter (keeps_tag ''published_at'') (ensure_tags p) @
                     [JList [JStr ''published_at'', JStr (str_int now)]])) \<and>
      (\<forall>t \<in> set (filter (keeps_tag ''published_at'') (ensure_tags p)).
         \<forall>rest. t \<noteq> JList (JStr ''published_at'' # rest))) \<and>
   (\<forall>event_id. deliver (fst (prepare_payload_for_publish p now)) = Published event_id \<longrightarrow>
      (\<exists>written. fst (attempt_publish_json deliver p now) = Some written \<and>
                 written ''created_at'' = Some (JInt now))) \<and>
   payload_from_draft 30050 ''ncc-07'' (Some ''Foo'') ''body''
       [(''published_at'', ''1''), (''summary'', ''s'')] 5 ''tags'' =
     Some (JList [json_tag [''d'', ''ncc-07''], json_tag [''title'', ''Foo''],
                  json_tag [''published_at'', ''1''], json_tag [''summary'', ''s'']]) \<and>
   fst (prepare_payload_for_publish
          (payload_from_draft 30050 ''ncc-07'' (Some ''Foo'') ''body''
             [(''published_at'', ''1''), (''summary'', ''s'')] 5) 7) ''tags'' =
     Some (JList [json_tag [''d'', ''ncc-07''], json_tag [''title'', ''Foo''],
                  json_tag [''summary'', ''s''], json_tag [''published_at'', ''7'']])"
proof -
  have a: "attempt_publish_payload deliver p now =
     (fst (prepare_payload_for_publish p now), deliver (fst (prepare_payload_for_publish p now)))"
    by (simp add: attempt_publish_payload_def Let_def)
  have b: "\<forall>t \<in> set (filter (keeps_tag ''published_at'') (ensure_tags p)).
         \<forall>rest. t \<noteq> JList (JStr ''published_at'' # rest)"
    using keeps_tag_not_key by auto
  have c: "\<exists>written. fst (attempt_publish_json deliver p now) = Some written \<and>
                 written ''created_at'' = Some (JInt now)"
    if "deliver (fst (prepare_payload_for_publish p now)) = Published event_id" for event_id
    using attempt_json_written[of deliver p now event_id] that
    by (simp add: finalize_created_at prepare_created_at)
  have d: "payload_from_draft 30050 ''ncc-07'' (Some ''Foo'') ''body''
       [(''published_at'', ''1''), (''summary'', ''s'')] 5 ''tags'' =
     Some (JList [json_tag [''d'', ''ncc-07''], json_tag [''title'', ''Foo''],
                  json_tag [''published_at'', ''1''], json_tag [''summary'', ''s'']])"
    by (simp add: payload_from_draft_def tags_to_map_def setdefault_append_def first_if_in_def
        first_if_truthy_def each_of_def title_entry_def Let_def)
  show ?thesis
    using a b c d prepare_created_at prepare_tags_document prepare_moves_published_at
    by blast
qed

theorem prepare_payload_stamps_witness:
  "kind_is_document [''kind'' \<mapsto> JInt 30050, ''created_at'' \<mapsto> JInt 5,
       ''tags'' \<mapsto> JList [JList [JStr ''published_at'', JStr ''1''],
                         JList [JStr ''summary'', JStr ''s'']]] \<and>
   fst (prepare_payload_for_publish
     [''kind'' \<mapsto> JInt 30050, ''created_at'' \<mapsto> JInt 5,
       ''tags'' \<mapsto> JList [JList [JStr ''published_at'', JStr ''1''],
                         JList [JStr ''summary'', JStr ''s'']]] 7) ''created_at'' = Some (JInt 7) \<and>
   fst (prepare_payload_for_publish
     [''kind'' \<mapsto> JInt 30050, ''created_at'' \<mapsto> JInt 5,
       ''tags'' \<mapsto> JList [JList [JStr ''published_at'', JStr ''1''],
                         JList [JStr ''summary'', JStr ''s'']]] 7) ''tags'' =
     Some (JList [JList [JStr ''summary'', JStr ''s''], JList [JStr ''published_at'', JStr ''7'']]) \<and>
   (\<exists>written. fst (attempt_publish_json (\<lambda>_. Published ''e1'')
     [''kind'' \<mapsto> JInt 30050, ''created_at'' \<mapsto> JInt 5,
       ''tags'' \<mapsto> JList [JList [JStr ''published_at'', JStr ''1''],
                         JList [JStr ''summary'', JStr ''s'']]] 7) = Some written \<and>
      written ''created_at'' = Some (JInt 7))"
  using prepare_payload_stamps
          [of "[''kind'' \<mapsto> JInt 30050, ''created_at'' \<mapsto> JInt 5,
                ''tags'' \<mapsto> JList [JList [JStr ''published_at'', JStr ''1''],
                                  JList [JStr ''summary'', JStr ''s'']]]" 7
              "\<lambda>_. Published ''e1''"]
  by (simp add: kind_is_document_def ensure_tags_def keeps_tag_def str_int_7)

subsection \<open>The draft store\<close>

lemma get_set_tags: "db_get_tags (db_set_tags s i tags) i = tags"
  by (simp add: db_get_tags_def db_set_tags_def filter_map comp_def case_prod_unfold)

lemma rows_set_tags:
  "filter (\<lambda>r. tg_draft_id r = i) (db_tags (db_set_tags s i tags)) =
     map (\<lambda>(key, v). \<lparr>tg_draft_id = i, tg_key = key, tg_value = v\<rparr>) tags"
  by (simp add: db_set_tags_def filter_map comp_def case_prod_unfold)

lemma get_set_tags_other:
  assumes "j \<noteq> i"
  shows "db_get_tags (db_set_tags s i tags) j = db_get_tags s j"
proof -
  have a: "filter (\<lambda>r. tg_draft_id r = j) (filter (\<lambda>r. tg_draft_id r \<noteq> i) (db_tags s)) =
           filter (\<lambda>r. tg_draft_id r = j) (db_tags s)"
    using assms by (auto intro: filter_cong)
  have b: "filter (\<lambda>r. tg_draft_id r = j)
             (map (\<lambda>(key, v). \<lparr>tg_draft_id = i, tg_key = key, tg_value = v\<rparr>) tags) = []"
    using assms by (auto simp: filter_empty_conv)
  show ?thesis
    unfolding db_get_tags_def db_set_tags_def by (simp add: a b del: filter_filter)
qed

lemma drafts_set_tags: "db_drafts (db_set_tags s i tags) = db_drafts s"
  by (simp add: db_set_tags_def)

text \<open>
  C3, as the code has it. The insert does not validate the identifier: for every
  \<open>d\<close>, the empty string included, it appends one draft row that carries \<open>d\<close> and the
  other arguments (both timestamps \<open>now\<close>, no event id) under the key the database
  assigned, stores the supplied tags for that row, and returns that key.
\<close>

theorem db_insert_draft_any_d:
  "snd (db_insert_draft s lastrowid now kind d title content tags status published_at) =
     lastrowid \<and>
   db_drafts (fst (db_insert_draft s lastrowid now kind d title content tags status
                     published_at)) =
     db_drafts s @
     [\<lparr>dr_id = lastrowid, dr_kind = kind, dr_d = d, dr_title = title, dr_content = content,
       dr_created_at = now, dr_updated_at = now, dr_published_at = published_at,
       dr_event_id = None, dr_status = Some status\<rparr>] \<and>
   db_get_tags (fst (db_insert_draft s lastrowid now kind d title content tags status
                       published_at)) lastrowid = tags"
  by (simp add: db_insert_draft_def Let_def get_set_tags drafts_set_tags)

text \<open>
  The claim C3 as stated fails: inserting the empty identifier into an empty store,
  where the database assigns the key 1, returns 1 and leaves a draft row whose \<open>d\<close>
  is empty.
\<close>

theorem db_insert_draft_empty_d_counterexample:
  "db_insert_draft \<lparr>db_drafts = [], db_tags = []\<rparr> 1 1700000000 30050 [] (Some ''T'') ''c''
     [(''lang'', ''en'')] ''draft'' None =
   (\<lparr>db_drafts = [\<lparr>dr_id = 1, dr_kind = 30050, dr_d = [], dr_title = Some ''T'',
                   dr_content = ''c'', dr_created_at = 1700000000,
                   dr_updated_at = 1700000000, dr_published_at = None, dr_event_id = None,
                   dr_status = Some ''draft''\<rparr>],
     db_tags = [\<lparr>tg_draft_id = 1, tg_key = ''lang'', tg_value = ''en''\<rparr>]\<rparr>, 1)"
  by (simp add: db_insert_draft_def db_set_tags_def Let_def)

text \<open>
  C6. After an update of a draft, the tag rows of that draft are the supplied pairs,
  one row each, in the supplied order, so no row of an earlier revision is left; the
  tags query returns the supplied pairs. (The tags of every other draft are as
  before.)
\<close>

theorem update_replaces_tags:
  "filter (\<lambda>r. tg_draft_id r = draft_id)
     (db_tags (db_update_draft s now draft_id title content tags status published_at event_id)) =
     map (\<lambda>(key, v). \<lparr>tg_draft_id = draft_id, tg_key = key, tg_value = v\<rparr>) tags \<and>
   db_get_tags (db_update_draft s now draft_id title content tags status published_at event_id)
     draft_id = tags \<and>
   (\<forall>other. other \<noteq> draft_id \<longrightarrow>
      db_get_tags (db_update_draft s now draft_id title content tags status published_at event_id)
        other = db_get_tags s other)"
proof -
  let ?s1 = "s\<lparr>db_drafts :=
            map (\<lambda>r. if dr_id r = draft_id
                      then update_row now title content status published_at event_id r
                      else r)
              (db_drafts s)\<rparr>"
  have u: "db_update_draft s now draft_id title content tags status published_at event_id =
           db_set_tags ?s1 draft_id tags"
    by (simp add: db_update_draft_def)
  have t: "db_get_tags ?s1 other = db_get_tags s other" for other
    by (simp add: db_get_tags_def)
  show ?thesis
    unfolding u using get_set_tags_other[of _ draft_id ?s1 tags]
    by (simp add: rows_set_tags get_set_tags t)
qed

theorem update_replaces_tags_witness:
  "db_get_tags
     (db_update_draft
        \<lparr>db_drafts = [],
         db_tags = [\<lparr>tg_draft_id = 1, tg_key = ''lang'', tg_value = ''en''\<rparr>,
                    \<lparr>tg_draft_id = 2, tg_key = ''t'', tg_value = ''x''\<rparr>,
                    \<lparr>tg_draft_id = 1, tg_key = ''t'', tg_value = ''old''\<rparr>]\<rparr>
        1700000000 1 (Some ''T'') ''c'' [(''t'', ''b''), (''t'', ''a'')] None None None) 1 =
     [(''t'', ''b''), (''t'', ''a'')] \<and>
   (2::int) \<noteq> 1 \<and>
   db_get_tags
     (db_update_draft
        \<lparr>db_drafts = [],
         db_tags = [\<lparr>tg_draft_id = 1, tg_key = ''lang'', tg_value = ''en''\<rparr>,
                    \<lparr>tg_draft_id = 2, tg_key = ''t'', tg_value = ''x''\<rparr>,
                    \<lparr>tg_draft_id = 1, tg_key = ''t'', tg_value = ''old''\<rparr>]\<rparr>
        1700000000 1 (Some ''T'') ''c'' [(''t'', ''b''), (''t'', ''a'')] None None None) 2 =
     [(''t'', ''x'')]"
  using update_replaces_tags
          [of 1 "\<lparr>db_drafts = [],
                   db_tags = [\<lparr>tg_draft_id = 1, tg_key = ''lang'', tg_value = ''en''\<rparr>,
                              \<lparr>tg_draft_id = 2, tg_key = ''t'', tg_value = ''x''\<rparr>,
                              \<lparr>tg_draft_id = 1, tg_key = ''t'', tg_value = ''old''\<rparr>]\<rparr>"
              1700000000 "Some ''T''" "''c''" "[(''t'', ''b''), (''t'', ''a'')]" None None None]
  by (simp add: db_get_tags_def)

lemma drafts_update:
  "db_drafts (db_update_draft s now draft_id title content tags status published_at event_id) =
     map (\<lambda>r. if dr_id r = draft_id
               then update_row now title content status published_at event_id r else r)
       (db_drafts s)"
  by (simp add: db_update_draft_def drafts_set_tags)

lemma update_row_fields:
  "dr_title (update_row now title content status published_at event_id r) = title"
  "dr_content (update_row now title content status published_at event_id r) = content"
  "dr_updated_at (update_row now title content status published_at event_id r) = now"
  "dr_status (update_row now title content status published_at event_id r) =
     (case status of None \<Rightarrow> dr_status r | Some v \<Rightarrow> Some v)"
  "dr_published_at (update_row now title content status published_at event_id r) =
     (case published_at of None \<Rightarrow> dr_published_at r | Some v \<Rightarrow> Some v)"
  "dr_event_id (update_row now title content status published_at event_id r) =
     (case event_id of None \<Rightarrow> dr_event_id r | Some v \<Rightarrow> Some v)"
  "dr_id (update_row now title content status published_at event_id r) = dr_id r"
  "dr_kind (update_row now title content status published_at event_id r) = dr_kind r"
  "dr_d (update_row now title content status published_at event_id r) = dr_d r"
  "dr_created_at (update_row now title content status published_at event_id r) = dr_created_at r"
  by (simp_all add: update_row_def coalesce_def)

text \<open>
  C7. An update keeps the number and the order of the draft rows. In the row whose id
  is the given one, title, content and \<open>updated_at\<close> are the supplied title, the
  supplied content and \<open>now\<close>; status, \<open>published_at\<close> and \<open>event_id\<close> are the supplied
  value when one is supplied and the stored value otherwise; id, kind, \<open>d\<close> and
  \<open>created_at\<close> are as before. Every other row is as before.
\<close>

theorem update_draft_frame:
  "length (db_drafts (db_update_draft s now draft_id title content tags status published_at
                        event_id)) = length (db_drafts s) \<and>
   (\<forall>i < length (db_drafts s).
      (let r = db_drafts s ! i;
           r' = db_drafts (db_update_draft s now draft_id title content tags status
                            published_at event_id) ! i
       in (dr_id r = draft_id \<longrightarrow>
             dr_title r' = title \<and> dr_content r' = content \<and> dr_updated_at r' = now \<and>
             dr_status r' = (case status of None \<Rightarrow> dr_status r | Some v \<Rightarrow> Some v) \<and>
             dr_published_at r' =
               (case published_at of None \<Rightarrow> dr_published_at r | Some v \<Rightarrow> Some v) \<and>
             dr_event_id r' = (case event_id of None \<Rightarrow> dr_event_id r | Some v \<Rightarrow> Some v) \<and>
             dr_id r' = dr_id r \<and> dr_kind r' = dr_kind r \<and> dr_d r' = dr_d r \<and>
             dr_created_at r' = dr_created_at r) \<and>
          (dr_id r \<noteq> draft_id \<longrightarrow> r' = r)))"
  by (simp add: drafts_update Let_def update_row_fields)

theorem update_draft_frame_witness:
  "(0::nat) < length (db_drafts sample_db) \<and> dr_id (db_drafts sample_db ! 0) = 1 \<and>
   (1::nat) < length (db_drafts sample_db) \<and> dr_id (db_drafts sample_db ! 1) \<noteq> 1 \<and>
   dr_title (db_drafts (db_update_draft sample_db 200 1 (Some ''New'') ''new'' []
                          (Some ''published'') None (Some ''ev'')) ! 0) = Some ''New'' \<and>
   dr_status (db_drafts (db_update_draft sample_db 200 1 (Some ''New'') ''new'' []
                          (Some ''published'') None (Some ''ev'')) ! 0) = Some ''published'' \<and>
   dr_published_at (db_drafts (db_update_draft sample_db 200 1 (Some ''New'') ''new'' []
                          (Some ''published'') None (Some ''ev'')) ! 0) = Some 150 \<and>
   dr_event_id (db_drafts (db_update_draft sample_db 200 1 (Some ''New'') ''new'' []
                          (Some ''published'') None (Some ''ev'')) ! 0) = Some ''ev'' \<and>
   dr_created_at (db_drafts (db_update_draft sample_db 200 1 (Some ''New'') ''new'' []
                          (Some ''published'') None (Some ''ev'')) ! 0) = 100 \<and>
   db_drafts (db_update_draft sample_db 200 1 (Some ''New'') ''new'' []
                (Some ''published'') None (Some ''ev'')) ! 1 = sample_succ"
proof -
  note t = update_draft_frame[of sample_db 200 1 "Some ''New''" "''new''" "[]"
             "Some ''published''" None "Some ''ev''", THEN conjunct2, rule_format]
  have l: "(0::nat) < length (db_drafts sample_db)" "(1::nat) < length (db_drafts sample_db)"
    by (simp_all add: sample_db_def)
  have a: "dr_id (db_drafts sample_db ! 0) = 1" "dr_id (db_drafts sample_db ! 1) \<noteq> 1"
    by (simp_all add: sample_db_def sample_doc_def sample_succ_def)
  show ?thesis
    using t[OF l(1)] t[OF l(2)] l a
    by (simp add: Let_def sample_db_def sample_doc_def)
qed

lemma head_sort_key_least:
  assumes "sort_key f xs = y # ys" and "x \<in> set xs"
  shows "f y \<le> f x"
proof -
  have s: "sorted (map f (y # ys))" using assms(1) sorted_sort_key[of f xs] by simp
  have "set (y # ys) = set xs" using assms(1) set_sort[of f xs] by simp
  then have "x = y \<or> x \<in> set ys" using assms(2) by auto
  then show ?thesis using s by auto
qed

lemma head_sort_key_mem:
  assumes "sort_key f xs = y # ys"
  shows "y \<in> set xs"
proof -
  have "set (y # ys) = set xs" using assms set_sort[of f xs] by simp
  then show ?thesis by auto
qed

lemma sort_key_Nil_iff: "sort_key f xs = [] \<longleftrightarrow> xs = []"
proof -
  have "length (sort_key f xs) = length xs" by simp
  then show ?thesis by (metis length_0_conv)
qed

text \<open>
  C8. The latest query returns nothing exactly when the store has no draft of that
  kind and identifier; a row it returns is a stored row of that kind and identifier,
  and no stored row of that kind and identifier has a greater \<open>updated_at\<close>.
\<close>

theorem latest_draft_greatest:
  "(db_get_latest_draft s kind d = None \<longleftrightarrow>
      \<not> (\<exists>r \<in> set (db_drafts s). dr_kind r = kind \<and> dr_d r = d)) \<and>
   (\<forall>r. db_get_latest_draft s kind d = Some r \<longrightarrow>
      r \<in> set (db_drafts s) \<and> dr_kind r = kind \<and> dr_d r = d \<and>
      (\<forall>r' \<in> set (db_drafts s). dr_kind r' = kind \<and> dr_d r' = d \<longrightarrow>
         dr_updated_at r' \<le> dr_updated_at r))"
proof -
  let ?xs = "filter (\<lambda>r. dr_kind r = kind \<and> dr_d r = d) (db_drafts s)"
  let ?f = "\<lambda>r. - dr_updated_at r"
  have none: "db_get_latest_draft s kind d = None \<longleftrightarrow> ?xs = []"
  proof (cases "sort_key ?f ?xs")
    case Nil
    then show ?thesis using sort_key_Nil_iff[of ?f ?xs] by (simp add: db_get_latest_draft_def)
  next
    case (Cons y ys)
    then show ?thesis using sort_key_Nil_iff[of ?f ?xs] by (simp add: db_get_latest_draft_def)
  qed
  have a: "db_get_latest_draft s kind d = None \<longleftrightarrow>
      \<not> (\<exists>r \<in> set (db_drafts s). dr_kind r = kind \<and> dr_d r = d)"
    unfolding none by (auto simp: filter_empty_conv)
  have b: "r \<in> set (db_drafts s) \<and> dr_kind r = kind \<and> dr_d r = d \<and>
      (\<forall>r' \<in> set (db_drafts s). dr_kind r' = kind \<and> dr_d r' = d \<longrightarrow>
         dr_updated_at r' \<le> dr_updated_at r)"
    if some: "db_get_latest_draft s kind d = Some r" for r
  proof -
    from some obtain ys where ys: "sort_key ?f ?xs = r # ys"
      by (auto simp: db_get_latest_draft_def split: list.splits)
    have mem: "r \<in> set ?xs" by (rule head_sort_key_mem[OF ys])
    have least: "dr_updated_at r' \<le> dr_updated_at r" if "r' \<in> set ?xs" for r'
      using head_sort_key_least[OF ys that] by simp
    show ?thesis using mem least by auto
  qed
  show ?thesis using a b by blast
qed

theorem latest_draft_greatest_witness:
  "db_get_latest_draft sample_db 30050 ''ncc-01'' = Some sample_doc_rev \<and>
   sample_doc \<in> set (db_drafts sample_db) \<and>
   dr_kind sample_doc = 30050 \<and> dr_d sample_doc = ''ncc-01'' \<and>
   dr_updated_at sample_doc \<le> dr_updated_at sample_doc_rev \<and>
   db_get_latest_draft sample_db 30050 ''ncc-02'' = None"
proof -
  have e: "db_get_latest_draft sample_db 30050 ''ncc-01'' = Some sample_doc_rev"
    by (simp add: db_get_latest_draft_def sample_db_def sample_doc_def sample_succ_def
        sample_doc_rev_def)
  have m: "sample_doc \<in> set (db_drafts sample_db)"
    "dr_kind sample_doc = 30050 \<and> dr_d sample_doc = ''ncc-01''"
    by (simp_all add: sample_db_def sample_doc_def)
  have g: "dr_updated_at sample_doc \<le> dr_updated_at sample_doc_rev"
    using latest_draft_greatest[of sample_db 30050 "''ncc-01''", THEN conjunct2, rule_format,
            OF e, THEN conjunct2, THEN conjunct2, THEN conjunct2, rule_format, OF m]
    by simp
  have n: "db_get_latest_draft sample_db 30050 ''ncc-02'' = None"
    using latest_draft_greatest[of sample_db 30050 "''ncc-02''", THEN conjunct1]
    by (simp add: sample_db_def sample_doc_def sample_succ_def sample_doc_rev_def)
  show ?thesis using e m g n by simp
qed

subsection \<open>The publish queue\<close>

text \<open>The head of a stable sort is the first element of the input that has the least key.\<close>

lemma head_sort_key_first:
  assumes "sort_key f xs = y # ys"
  shows "\<exists>zs. filter (\<lambda>x. f x = f y) xs = y # zs"
proof -
  have "filter (\<lambda>x. f x = f y) (sort_key f xs) = filter (\<lambda>x. f x = f y) xs"
    by (rule sort_key_stable)
  then have "filter (\<lambda>x. f x = f y) xs = y # filter (\<lambda>x. f x = f y) ys"
    using assms by simp
  then show ?thesis by blast
qed

lemma head_sort_key_tie:
  assumes "sort_key f xs = y # ys" and "x \<in> set xs" and "f x = f y"
    and "sorted (map g xs)"
  shows "g y \<le> g x"
proof -
  obtain zs where zs: "filter (\<lambda>x. f x = f y) xs = y # zs"
    using head_sort_key_first[OF assms(1)] by blast
  have "sorted (map g (filter (\<lambda>x. f x = f y) xs))" by (rule sorted_filter[OF assms(4)])
  then have s: "sorted (map g (y # zs))" using zs by simp
  have "x \<in> set (filter (\<lambda>x. f x = f y) xs)" using assms(2,3) by simp
  then have "x = y \<or> x \<in> set zs" using zs by simp
  then show ?thesis using s by auto
qed

lemma select_due_None:
  "select_due rows now = None \<longleftrightarrow> (\<forall>r \<in> set rows. now < q_next_attempt_at r)"
proof -
  let ?xs = "filter (\<lambda>r. q_next_attempt_at r \<le> now) rows"
  have "select_due rows now = None \<longleftrightarrow> ?xs = []"
  proof (cases "sort_key q_next_attempt_at ?xs")
    case Nil
    then show ?thesis
      using sort_key_Nil_iff[of q_next_attempt_at ?xs] by (simp add: select_due_def)
  next
    case (Cons y ys)
    then show ?thesis
      using sort_key_Nil_iff[of q_next_attempt_at ?xs] by (simp add: select_due_def)
  qed
  then show ?thesis by (auto simp: filter_empty_conv not_le)
qed

lemma select_due_Some:
  assumes "select_due rows now = Some row"
  shows "row \<in> set rows" and "q_next_attempt_at row \<le> now"
    and "\<And>r. r \<in> set rows \<Longrightarrow> q_next_attempt_at r \<le> now \<Longrightarrow>
           q_next_attempt_at row \<le> q_next_attempt_at r"
    and "\<And>r. r \<in> set rows \<Longrightarrow> q_next_attempt_at r = q_next_attempt_at row \<Longrightarrow>
           sorted (map q_id rows) \<Longrightarrow> q_id row \<le> q_id r"
proof -
  let ?xs = "filter (\<lambda>r. q_next_attempt_at r \<le> now) rows"
  from assms obtain ys where ys: "sort_key q_next_attempt_at ?xs = row # ys"
    by (auto simp: select_due_def split: list.splits)
  have mem: "row \<in> set ?xs" by (rule head_sort_key_mem[OF ys])
  then show "row \<in> set rows" and "q_next_attempt_at row \<le> now" by simp_all
  show "q_next_attempt_at row \<le> q_next_attempt_at r"
    if "r \<in> set rows" "q_next_attempt_at r \<le> now" for r
    using head_sort_key_least[OF ys, of r] that by simp
  show "q_id row \<le> q_id r"
    if "r \<in> set rows" "q_next_attempt_at r = q_next_attempt_at row" "sorted (map q_id rows)"
    for r
  proof -
    have "r \<in> set ?xs" using that mem by simp
    moreover have "sorted (map q_id ?xs)" by (rule sorted_filter[OF that(3)])
    ultimately show ?thesis using head_sort_key_tie[OF ys _ that(2)] by blast
  qed
qed

lemma others_delete:
  "filter (\<lambda>r. q_id r \<noteq> i) (delete_task i rows) = filter (\<lambda>r. q_id r \<noteq> i) rows"
  by (simp add: delete_task_def)

lemma others_reschedule:
  "filter (\<lambda>r. q_id r \<noteq> i) (reschedule_task i a n e rows) = filter (\<lambda>r. q_id r \<noteq> i) rows"
  by (induction rows) (simp_all add: reschedule_task_def)

lemma process_others:
  assumes "select_due (qs_rows s) now = Some row"
  shows "filter (\<lambda>r. q_id r \<noteq> q_id row)
           (qs_rows (fst (process_publish_queue_db run u output now now' s))) =
         filter (\<lambda>r. q_id r \<noteq> q_id row) (qs_rows s)"
  using assms
  by (cases "run row")
     (simp_all add: process_publish_queue_db_def Let_def others_delete others_reschedule)

lemma process_none_due:
  "select_due (qs_rows s) now = None \<Longrightarrow>
   process_publish_queue_db run u output now now' s = (s, Inr False)"
  by (simp add: process_publish_queue_db_def)

lemma delete_task_gone: "\<forall>r \<in> set (delete_task i rows). q_id r \<noteq> i"
  by (simp add: delete_task_def)

lemma reschedule_task_length: "length (reschedule_task i a n e rows) = length rows"
  by (simp add: reschedule_task_def)

lemma reschedule_task_row:
  "row \<in> set rows \<Longrightarrow>
   row\<lparr>q_attempts := a, q_next_attempt_at := n, q_last_error := Some e\<rparr>
     \<in> set (reschedule_task (q_id row) a n e rows)"
proof -
  assume "row \<in> set rows"
  then have "(\<lambda>r. if q_id r = q_id row
               then r\<lparr>q_attempts := a, q_next_attempt_at := n, q_last_error := Some e\<rparr>
               else r) row \<in> set (reschedule_task (q_id row) a n e rows)"
    unfolding reschedule_task_def set_map by (rule imageI)
  then show ?thesis by simp
qed

lemma reschedule_task_fields:
  "\<forall>r \<in> set (reschedule_task i a n e rows).
     q_id r = i \<longrightarrow> q_attempts r = a \<and> q_next_attempt_at r = n \<and> q_last_error r = Some e"
proof
  fix r
  assume "r \<in> set (reschedule_task i a n e rows)"
  then obtain r0 where r0: "r0 \<in> set rows"
    and r: "r = (if q_id r0 = i
               then r0\<lparr>q_attempts := a, q_next_attempt_at := n, q_last_error := Some e\<rparr>
               else r0)"
    unfolding reschedule_task_def set_map by blast
  show "q_id r = i \<longrightarrow> q_attempts r = a \<and> q_next_attempt_at r = n \<and> q_last_error r = Some e"
  proof (cases "q_id r0 = i")
    case True
    then have "r = r0\<lparr>q_attempts := a, q_next_attempt_at := n, q_last_error := Some e\<rparr>"
      using r by simp
    then show ?thesis by simp
  next
    case False
    then have "r = r0" using r by simp
    then show ?thesis using False by simp
  qed
qed

lemma process_published:
  assumes "select_due (qs_rows s) now = Some row" and "run row = Published event_id"
  shows "process_publish_queue_db run u output now now' s =
         (\<lparr>qs_rows = delete_task (q_id row) (qs_rows s),
           qs_printed = queue_notice output
             (''Queued publish succeeded (event '' @ event_id @ '').'') (qs_printed s)\<rparr>,
          Inr True)"
  using assms by (simp add: process_publish_queue_db_def)

lemma process_raised_final:
  assumes "select_due (qs_rows s) now = Some row" and "run row = Raised exc"
    and "q_max_attempts row \<le> q_attempts row + 1"
  shows "process_publish_queue_db run u output now now' s =
         (\<lparr>qs_rows = delete_task (q_id row) (qs_rows s),
           qs_printed = queue_notice output
             (''Queued publish failed permanently after '' @ str_int (q_attempts row + 1) @
              '' attempts: '' @ exc) (qs_printed s)\<rparr>,
          Inr True)"
  using assms by (simp add: process_publish_queue_db_def Let_def)

lemma process_raised_retry:
  assumes "select_due (qs_rows s) now = Some row" and "run row = Raised exc"
    and "q_attempts row + 1 < q_max_attempts row"
  shows "process_publish_queue_db run u output now now' s =
         (\<lparr>qs_rows = reschedule_task (q_id row) (q_attempts row + 1)
                       (now' + compute_retry_delay (q_attempts row + 2) u) exc (qs_rows s),
           qs_printed = queue_notice output
             (''Queued publish failed (attempt '' @ str_int (q_attempts row + 1) @ ''/'' @
              str_int (q_max_attempts row) @ ''): '' @ exc) (qs_printed s)\<rparr>,
          Inr True)"
  using assms by (simp add: process_publish_queue_db_def Let_def add.assoc)

text \<open>
  C2, as the code has it. Let a pass select a due task. When the delivery succeeds, no
  row with the task's id is left. When the delivery raises an exception that derives
  from \<open>Exception\<close> and the stored attempts plus one is below \<open>max_attempts\<close>, the table
  keeps its length, the task's row is there with attempts one higher,
  \<open>next_attempt_at\<close> the clock plus the back-off delay of the attempt after that one
  and \<open>last_error\<close> the error text, and this holds of every row with the task's id.
  When the stored attempts plus one reaches \<open>max_attempts\<close>, no row with the task's id
  is left, and the line that reports the abandonment is passed once to the output
  callback of a worker that has one; a worker without a callback emits nothing. In all
  three cases the pass returns true.
\<close>

theorem dispatch_outcome_handling:
  assumes "select_due (qs_rows s) now = Some row"
  shows
    "(\<forall>event_id. run row = Published event_id \<longrightarrow>
        snd (process_publish_queue_db run u output now now' s) = Inr True \<and>
        (\<forall>r \<in> set (qs_rows (fst (process_publish_queue_db run u output now now' s))).
           q_id r \<noteq> q_id row)) \<and>
     (\<forall>exc. run row = Raised exc \<and> q_attempts row + 1 < q_max_attempts row \<longrightarrow>
        snd (process_publish_queue_db run u output now now' s) = Inr True \<and>
        length (qs_rows (fst (process_publish_queue_db run u output now now' s))) =
          length (qs_rows s) \<and>
        row\<lparr>q_attempts := q_attempts row + 1,
            q_next_attempt_at := now' + compute_retry_delay (q_attempts row + 2) u,
            q_last_error := Some exc\<rparr>
          \<in> set (qs_rows (fst (process_publish_queue_db run u output now now' s))) \<and>
        (\<forall>r \<in> set (qs_rows (fst (process_publish_queue_db run u output now now' s))).
           q_id r = q_id row \<longrightarrow>
             q_attempts r = q_attempts row + 1 \<and>
             q_next_attempt_at r = now' + compute_retry_delay (q_attempts row + 2) u \<and>
             q_last_error r = Some exc)) \<and>
     (\<forall>exc. run row = Raised exc \<and> q_max_attempts row \<le> q_attempts row + 1 \<longrightarrow>
        snd (process_publish_queue_db run u output now now' s) = Inr True \<and>
        (\<forall>r \<in> set (qs_rows (fst (process_publish_queue_db run u output now now' s))).
           q_id r \<noteq> q_id row) \<and>
        qs_printed (fst (process_publish_queue_db run u output now now' s)) =
          (case output of
             None \<Rightarrow> qs_printed s
           | Some Print \<Rightarrow>
               qs_printed s @
               [''Queued publish failed permanently after '' @ str_int (q_attempts row + 1) @
                '' attempts: '' @ exc]))"
proof (intro conjI allI impI)
  fix event_id
  assume r: "run row = Published event_id"
  note p = process_published[of s now row run event_id u "output" now', OF assms r]
  show "snd (process_publish_queue_db run u output now now' s) = Inr True"
    by (simp add: p)
  show "\<forall>r \<in> set (qs_rows (fst (process_publish_queue_db run u output now now' s))).
           q_id r \<noteq> q_id row"
    using delete_task_gone by (simp add: p)
next
  fix exc
  assume "run row = Raised exc \<and> q_attempts row + 1 < q_max_attempts row"
  then have r: "run row = Raised exc" and lt: "q_attempts row + 1 < q_max_attempts row"
    by simp_all
  note p = process_raised_retry[of s now row run exc u "output" now', OF assms r lt]
  have mem: "row \<in> set (qs_rows s)" by (rule select_due_Some(1)[OF assms])
  show "snd (process_publish_queue_db run u output now now' s) = Inr True"
    by (simp add: p)
  show "length (qs_rows (fst (process_publish_queue_db run u output now now' s))) =
          length (qs_rows s)"
    by (simp add: p reschedule_task_length)
  show "row\<lparr>q_attempts := q_attempts row + 1,
            q_next_attempt_at := now' + compute_retry_delay (q_attempts row + 2) u,
            q_last_error := Some exc\<rparr>
          \<in> set (qs_rows (fst (process_publish_queue_db run u output now now' s)))"
    using reschedule_task_row[OF mem] by (simp add: p)
  show "\<forall>r \<in> set (qs_rows (fst (process_publish_queue_db run u output now now' s))).
           q_id r = q_id row \<longrightarrow>
             q_attempts r = q_attempts row + 1 \<and>
             q_next_attempt_at r = now' + compute_retry_delay (q_attempts row + 2) u \<and>
             q_last_error r = Some exc"
    using reschedule_task_fields by (simp add: p)
next
  fix exc
  assume "run row = Raised exc \<and> q_max_attempts row \<le> q_attempts row + 1"
  then have r: "run row = Raised exc" and ge: "q_max_attempts row \<le> q_attempts row + 1"
    by simp_all
  note p = process_raised_final[of s now row run exc u "output" now', OF assms r ge]
  show "snd (process_publish_queue_db run u output now now' s) = Inr True"
    by (simp add: p)
  show "\<forall>r \<in> set (qs_rows (fst (process_publish_queue_db run u output now now' s))).
           q_id r \<noteq> q_id row"
    using delete_task_gone by (simp add: p)
  show "qs_printed (fst (process_publish_queue_db run u output now now' s)) =
          (case output of
             None \<Rightarrow> qs_printed s
           | Some Print \<Rightarrow>
               qs_printed s @
               [''Queued publish failed permanently after '' @ str_int (q_attempts row + 1) @
                '' attempts: '' @ exc])"
    by (simp add: p queue_notice_def split: option.splits sink.splits)
qed

lemma str_int_5: "str_int 5 = ''5''"
  by (simp add: str_int_def str_nat.simps digit_char_def)

theorem dispatch_outcome_handling_witness:
  "select_due [sample_task 1 4 5 50] 100 = Some (sample_task 1 4 5 50) \<and>
   q_max_attempts (sample_task 1 4 5 50) \<le> q_attempts (sample_task 1 4 5 50) + 1 \<and>
   snd (process_publish_queue_db (\<lambda>_. Raised ''boom'') 0 (Some Print) 100 101
          \<lparr>qs_rows = [sample_task 1 4 5 50], qs_printed = []\<rparr>) = Inr True \<and>
   qs_printed (fst (process_publish_queue_db (\<lambda>_. Raised ''boom'') 0 (Some Print) 100 101
                      \<lparr>qs_rows = [sample_task 1 4 5 50], qs_printed = []\<rparr>)) =
     [''Queued publish failed permanently after 5 attempts: boom''] \<and>
   select_due [sample_task 1 0 5 50] 100 = Some (sample_task 1 0 5 50) \<and>
   q_attempts (sample_task 1 0 5 50) + 1 < q_max_attempts (sample_task 1 0 5 50) \<and>
   length (qs_rows (fst (process_publish_queue_db (\<lambda>_. Raised ''boom'') 0 (Some Print) 100 101
                           \<lparr>qs_rows = [sample_task 1 0 5 50], qs_printed = []\<rparr>))) = 1 \<and>
   (sample_task 1 1 5 (101 + compute_retry_delay 2 0))\<lparr>q_last_error := Some ''boom''\<rparr>
     \<in> set (qs_rows (fst (process_publish_queue_db (\<lambda>_. Raised ''boom'') 0 (Some Print) 100 101
                            \<lparr>qs_rows = [sample_task 1 0 5 50], qs_printed = []\<rparr>))) \<and>
   snd (process_publish_queue_db (\<lambda>_. Published ''e1'') 0 (Some Print) 100 101
          \<lparr>qs_rows = [sample_task 1 0 5 50], qs_printed = []\<rparr>) = Inr True"
proof -
  let ?s4 = "\<lparr>qs_rows = [sample_task 1 4 5 50], qs_printed = []\<rparr>"
  let ?s0 = "\<lparr>qs_rows = [sample_task 1 0 5 50], qs_printed = []\<rparr>"
  have sel4: "select_due (qs_rows ?s4) 100 = Some (sample_task 1 4 5 50)"
    by (simp add: select_due_def sample_task_def)
  have sel0: "select_due (qs_rows ?s0) 100 = Some (sample_task 1 0 5 50)"
    by (simp add: select_due_def sample_task_def)
  have ge: "q_max_attempts (sample_task 1 4 5 50) \<le> q_attempts (sample_task 1 4 5 50) + 1"
    and lt: "q_attempts (sample_task 1 0 5 50) + 1 < q_max_attempts (sample_task 1 0 5 50)"
    by (simp_all add: sample_task_def)
  have final:
    "snd (process_publish_queue_db (\<lambda>_. Raised ''boom'') 0 (Some Print) 100 101 ?s4) = Inr True"
    "qs_printed (fst (process_publish_queue_db (\<lambda>_. Raised ''boom'') 0 (Some Print) 100 101 ?s4)) =
       [''Queued publish failed permanently after '' @
        str_int (q_attempts (sample_task 1 4 5 50) + 1) @ '' attempts: '' @ ''boom'']"
    using dispatch_outcome_handling[OF sel4, of "\<lambda>_. Raised ''boom''" 0 "Some Print" 101,
        THEN conjunct2, THEN conjunct2, rule_format, of "''boom''"] ge
    by simp_all
  have five: "q_attempts (sample_task 1 4 5 50) + 1 = 5" by (simp add: sample_task_def)
  have retry:
    "length (qs_rows (fst (process_publish_queue_db (\<lambda>_. Raised ''boom'') 0 (Some Print) 100 101
                             ?s0))) = length (qs_rows ?s0)"
    "(sample_task 1 0 5 50)\<lparr>q_attempts := q_attempts (sample_task 1 0 5 50) + 1,
        q_next_attempt_at := 101 + compute_retry_delay (q_attempts (sample_task 1 0 5 50) + 2) 0,
        q_last_error := Some ''boom''\<rparr>
       \<in> set (qs_rows (fst (process_publish_queue_db (\<lambda>_. Raised ''boom'') 0 (Some Print)
                              100 101 ?s0)))"
    using dispatch_outcome_handling[OF sel0, of "\<lambda>_. Raised ''boom''" 0 "Some Print" 101,
        THEN conjunct2, THEN conjunct1, rule_format, of "''boom''"] lt
    by simp_all
  have row: "(sample_task 1 0 5 50)\<lparr>q_attempts := q_attempts (sample_task 1 0 5 50) + 1,
        q_next_attempt_at := 101 + compute_retry_delay (q_attempts (sample_task 1 0 5 50) + 2) 0,
        q_last_error := Some ''boom''\<rparr> =
      (sample_task 1 1 5 (101 + compute_retry_delay 2 0))\<lparr>q_last_error := Some ''boom''\<rparr>"
    by (simp add: sample_task_def)
  have sent:
    "snd (process_publish_queue_db (\<lambda>_. Published ''e1'') 0 (Some Print) 100 101 ?s0) = Inr True"
    using dispatch_outcome_handling[OF sel0, of "\<lambda>_. Published ''e1''" 0 "Some Print" 101,
        THEN conjunct1, rule_format, of "''e1''"]
    by simp
  show ?thesis
    using sel4 sel0 ge lt final(1) final(2)[unfolded five] retry(1) retry(2)[unfolded row] sent
    by (simp add: str_int_5)
qed

text \<open>
  The claim C2 as stated fails on two inputs. A worker that was started without an
  output callback abandons a task on its last failure and emits no notification. A
  task that raises \<open>SystemExit\<close> is not counted as a failed attempt: its row stays as
  it was and the exception leaves the pass.
\<close>

theorem dispatch_outcome_handling_counterexample:
  "process_publish_queue_db (\<lambda>_. Raised ''boom'') 0 None 100 101
     \<lparr>qs_rows = [sample_task 1 4 5 50], qs_printed = []\<rparr> =
     (\<lparr>qs_rows = [], qs_printed = []\<rparr>, Inr True) \<and>
   process_publish_queue_db (\<lambda>_. Exited ''Missing privkey for queued publish.'') 0 (Some Print)
     100 101 \<lparr>qs_rows = [sample_task 1 0 5 50], qs_printed = []\<rparr> =
     (\<lparr>qs_rows = [sample_task 1 0 5 50], qs_printed = []\<rparr>,
      Inl (SystemExit ''Missing privkey for queued publish.''))"
  by (simp add: process_publish_queue_db_def select_due_def sample_task_def Let_def
      delete_task_def queue_notice_def)

lemma process_exited:
  assumes "select_due (qs_rows s) now = Some row" and "run row = Exited msg"
  shows "process_publish_queue_db run u output now now' s = (s, Inl (SystemExit msg))"
  using assms by (simp add: process_publish_queue_db_def)

lemma process_some_not_False:
  assumes "select_due (qs_rows s) now = Some row"
  shows "snd (process_publish_queue_db run u output now now' s) \<noteq> Inr False"
  using assms by (cases "run row") (simp_all add: process_publish_queue_db_def Let_def)

lemma process_run_selected_only:
  assumes "select_due (qs_rows s) now = Some row"
  shows "process_publish_queue_db run u output now now' s =
         process_publish_queue_db (\<lambda>_. run row) u output now now' s"
  using assms by (simp add: process_publish_queue_db_def)

lemma select_due_first_of_ties:
  assumes "select_due rows now = Some row"
  shows "\<exists>later. filter (\<lambda>r. q_next_attempt_at r = q_next_attempt_at row) rows = row # later"
proof -
  let ?xs = "filter (\<lambda>r. q_next_attempt_at r \<le> now) rows"
  from assms obtain ys where ys: "sort_key q_next_attempt_at ?xs = row # ys"
    by (auto simp: select_due_def split: list.splits)
  obtain zs where zs: "filter (\<lambda>r. q_next_attempt_at r = q_next_attempt_at row) ?xs = row # zs"
    using head_sort_key_first[OF ys] by blast
  have due: "q_next_attempt_at row \<le> now" by (rule select_due_Some(2)[OF assms])
  have "filter (\<lambda>r. q_next_attempt_at r = q_next_attempt_at row) ?xs =
        filter (\<lambda>r. q_next_attempt_at r = q_next_attempt_at row) rows"
    unfolding filter_filter using due by (intro filter_cong) auto
  then show ?thesis using zs by simp
qed

text \<open>
  C5. A pass finds no task exactly when no task has \<open>next_attempt_at \<le> now\<close>, and then
  it returns false and leaves the state as it was. Otherwise the task it selects is a
  stored task that is due; no due task has a smaller \<open>next_attempt_at\<close>; of the tasks
  with the same \<open>next_attempt_at\<close> it is the first in the table, which, the table being
  in row id order, is the one with the least row id. The pass then attempts that task
  and no other: it does not return false, its result depends on the delivery of the
  selected task alone, it is the handling of that delivery (the row deleted on
  success; deleted or rescheduled on an exception; the \<open>SystemExit\<close> of a task passed
  on), and every row but the selected one is in the table afterwards as it was
  before.
\<close>

theorem dispatch_selects_oldest_due:
  "(select_due (qs_rows s) now = None \<longleftrightarrow>
      (\<forall>r \<in> set (qs_rows s). now < q_next_attempt_at r)) \<and>
   (select_due (qs_rows s) now = None \<longrightarrow>
      process_publish_queue_db run u output now now' s = (s, Inr False)) \<and>
   (\<forall>row. select_due (qs_rows s) now = Some row \<longrightarrow>
      row \<in> set (qs_rows s) \<and> q_next_attempt_at row \<le> now \<and>
      (\<forall>r \<in> set (qs_rows s). q_next_attempt_at r \<le> now \<longrightarrow>
         q_next_attempt_at row \<le> q_next_attempt_at r) \<and>
      (\<exists>later. filter (\<lambda>r. q_next_attempt_at r = q_next_attempt_at row) (qs_rows s) =
         row # later) \<and>
      (sorted (map q_id (qs_rows s)) \<longrightarrow>
         (\<forall>r \<in> set (qs_rows s). q_next_attempt_at r = q_next_attempt_at row \<longrightarrow>
            q_id row \<le> q_id r)) \<and>
      snd (process_publish_queue_db run u output now now' s) \<noteq> Inr False \<and>
      process_publish_queue_db run u output now now' s =
        process_publish_queue_db (\<lambda>_. run row) u output now now' s \<and>
      (\<forall>event_id. run row = Published event_id \<longrightarrow>
         process_publish_queue_db run u output now now' s =
           (\<lparr>qs_rows = delete_task (q_id row) (qs_rows s),
             qs_printed = queue_notice output
               (''Queued publish succeeded (event '' @ event_id @ '').'') (qs_printed s)\<rparr>,
            Inr True)) \<and>
      (\<forall>msg. run row = Exited msg \<longrightarrow>
         process_publish_queue_db run u output now now' s = (s, Inl (SystemExit msg))) \<and>
      (\<forall>exc. run row = Raised exc \<longrightarrow>
         snd (process_publish_queue_db run u output now now' s) = Inr True \<and>
         qs_rows (fst (process_publish_queue_db run u output now now' s)) =
           (if q_max_attempts row \<le> q_attempts row + 1
            then delete_task (q_id row) (qs_rows s)
            else reschedule_task (q_id row) (q_attempts row + 1)
                   (now' + compute_retry_delay (q_attempts row + 2) u) exc (qs_rows s))) \<and>
      filter (\<lambda>r. q_id r \<noteq> q_id row)
        (qs_rows (fst (process_publish_queue_db run u output now now' s))) =
      filter (\<lambda>r. q_id r \<noteq> q_id row) (qs_rows s))"
proof (intro conjI allI impI)
  show "select_due (qs_rows s) now = None \<longleftrightarrow>
        (\<forall>r \<in> set (qs_rows s). now < q_next_attempt_at r)"
    by (rule select_due_None)
next
  assume "select_due (qs_rows s) now = None"
  then show "process_publish_queue_db run u output now now' s = (s, Inr False)"
    by (rule process_none_due)
next
  fix row
  assume sel: "select_due (qs_rows s) now = Some row"
  show "row \<in> set (qs_rows s)" by (rule select_due_Some(1)[OF sel])
  show "q_next_attempt_at row \<le> now" by (rule select_due_Some(2)[OF sel])
  show "\<forall>r \<in> set (qs_rows s). q_next_attempt_at r \<le> now \<longrightarrow>
           q_next_attempt_at row \<le> q_next_attempt_at r"
    using select_due_Some(3)[OF sel] by blast
  show "\<exists>later. filter (\<lambda>r. q_next_attempt_at r = q_next_attempt_at row) (qs_rows s) =
         row # later"
    by (rule select_due_first_of_ties[OF sel])
  show "snd (process_publish_queue_db run u output now now' s) \<noteq> Inr False"
    by (rule process_some_not_False[OF sel])
  show "process_publish_queue_db run u output now now' s =
        process_publish_queue_db (\<lambda>_. run row) u output now now' s"
    by (rule process_run_selected_only[OF sel])
  show "filter (\<lambda>r. q_id r \<noteq> q_id row)
          (qs_rows (fst (process_publish_queue_db run u output now now' s))) =
        filter (\<lambda>r. q_id r \<noteq> q_id row) (qs_rows s)"
    by (rule process_others[OF sel])
  {
    assume srt: "sorted (map q_id (qs_rows s))"
    show "\<forall>r \<in> set (qs_rows s). q_next_attempt_at r = q_next_attempt_at row \<longrightarrow>
            q_id row \<le> q_id r"
      using select_due_Some(4)[OF sel _ _ srt] by blast
  }
  {
    fix event_id
    assume r: "run row = Published event_id"
    show "process_publish_queue_db run u output now now' s =
           (\<lparr>qs_rows = delete_task (q_id row) (qs_rows s),
             qs_printed = queue_notice output
               (''Queued publish succeeded (event '' @ event_id @ '').'') (qs_printed s)\<rparr>,
            Inr True)"
      using sel r by (simp add: process_publish_queue_db_def)
  }
  {
    fix msg
    assume r: "run row = Exited msg"
    show "process_publish_queue_db run u output now now' s = (s, Inl (SystemExit msg))"
      using sel r by (simp add: process_publish_queue_db_def)
  }
  {
    fix exc
    assume r: "run row = Raised exc"
    show "snd (process_publish_queue_db run u output now now' s) = Inr True"
      using sel r by (simp add: process_publish_queue_db_def Let_def)
    show "qs_rows (fst (process_publish_queue_db run u output now now' s)) =
           (if q_max_attempts row \<le> q_attempts row + 1
            then delete_task (q_id row) (qs_rows s)
            else reschedule_task (q_id row) (q_attempts row + 1)
                   (now' + compute_retry_delay (q_attempts row + 2) u) exc (qs_rows s))"
      using sel r by (simp add: process_publish_queue_db_def Let_def add.assoc)
  }
qed

theorem dispatch_selects_oldest_due_witness:
  "select_due [sample_task 1 0 5 50, sample_task 2 0 5 40, sample_task 3 0 5 40] 45 =
     Some (sample_task 2 0 5 40) \<and>
   sorted (map q_id [sample_task 1 0 5 50, sample_task 2 0 5 40, sample_task 3 0 5 40]) \<and>
   sample_task 3 0 5 40 \<in> set [sample_task 1 0 5 50, sample_task 2 0 5 40, sample_task 3 0 5 40] \<and>
   q_next_attempt_at (sample_task 3 0 5 40) = q_next_attempt_at (sample_task 2 0 5 40) \<and>
   q_id (sample_task 2 0 5 40) \<le> q_id (sample_task 3 0 5 40) \<and>
   process_publish_queue_db (\<lambda>r. if q_id r = 2 then Published ''e1'' else Raised ''other'')
     0 (Some Print) 45 46
     \<lparr>qs_rows = [sample_task 1 0 5 50, sample_task 2 0 5 40, sample_task 3 0 5 40],
      qs_printed = []\<rparr> =
     (\<lparr>qs_rows = [sample_task 1 0 5 50, sample_task 3 0 5 40],
       qs_printed = [''Queued publish succeeded (event e1).'']\<rparr>, Inr True) \<and>
   select_due [sample_task 1 0 5 50, sample_task 2 0 5 40, sample_task 3 0 5 40] 30 = None \<and>
   process_publish_queue_db (\<lambda>_. Published ''e1'') 0 (Some Print) 30 31
     \<lparr>qs_rows = [sample_task 1 0 5 50, sample_task 2 0 5 40, sample_task 3 0 5 40],
      qs_printed = []\<rparr> =
     (\<lparr>qs_rows = [sample_task 1 0 5 50, sample_task 2 0 5 40, sample_task 3 0 5 40],
       qs_printed = []\<rparr>, Inr False)"
proof -
  let ?rows = "[sample_task 1 0 5 50, sample_task 2 0 5 40, sample_task 3 0 5 40]"
  let ?s = "\<lparr>qs_rows = ?rows, qs_printed = []\<rparr>"
  let ?run = "\<lambda>r. if q_id r = 2 then Published ''e1'' else Raised ''other''"
  have srt: "sorted (map q_id (qs_rows ?s))" by (simp add: sample_task_def)
  have sel: "select_due (qs_rows ?s) 45 = Some (sample_task 2 0 5 40)"
    by (simp add: select_due_def sample_task_def)
  have none: "select_due (qs_rows ?s) 30 = None"
    by (simp add: select_due_def sample_task_def)
  have m: "sample_task 3 0 5 40 \<in> set (qs_rows ?s)" by simp
  have e: "q_next_attempt_at (sample_task 3 0 5 40) = q_next_attempt_at (sample_task 2 0 5 40)"
    by (simp add: sample_task_def)
  have r: "?run (sample_task 2 0 5 40) = Published ''e1''" by (simp add: sample_task_def)
  note t = dispatch_selects_oldest_due[of ?s 45 ?run 0 "Some Print" 46,
      THEN conjunct2, THEN conjunct2, rule_format, OF sel]
  have tie: "q_id (sample_task 2 0 5 40) \<le> q_id (sample_task 3 0 5 40)"
    using t[THEN conjunct2, THEN conjunct2, THEN conjunct2, THEN conjunct2, THEN conjunct1,
        rule_format, OF srt m e] .
  have sent: "process_publish_queue_db ?run 0 (Some Print) 45 46 ?s =
     (\<lparr>qs_rows = delete_task (q_id (sample_task 2 0 5 40)) (qs_rows ?s),
       qs_printed = queue_notice (Some Print)
         (''Queued publish succeeded (event '' @ ''e1'' @ '').'') (qs_printed ?s)\<rparr>, Inr True)"
    using t[THEN conjunct2, THEN conjunct2, THEN conjunct2, THEN conjunct2, THEN conjunct2,
        THEN conjunct2, THEN conjunct2, THEN conjunct1, rule_format, OF r] .
  have sent': "process_publish_queue_db ?run 0 (Some Print) 45 46 ?s =
     (\<lparr>qs_rows = [sample_task 1 0 5 50, sample_task 3 0 5 40],
       qs_printed = [''Queued publish succeeded (event e1).'']\<rparr>, Inr True)"
    unfolding sent by (simp add: delete_task_def queue_notice_def sample_task_def)
  have idle: "process_publish_queue_db (\<lambda>_. Published ''e1'') 0 (Some Print) 30 31 ?s =
              (?s, Inr False)"
    using dispatch_selects_oldest_due[of ?s 30 "\<lambda>_. Published ''e1''" 0 "Some Print" 31,
        THEN conjunct2, THEN conjunct1] none by blast
  show ?thesis using srt sel none m e tie sent' idle by simp
qed

subsection \<open>Validating author keys\<close>

lemma author_errors_acc:
  "author_errors parse_ok errors vs =
     errors @ map describe_offender (filter (offending parse_ok) vs)"
  by (induction vs arbitrary: errors) (simp_all add: offending_def describe_offender_def)

lemma validate_author_keys_eq:
  "validate_author_keys parse_ok authors =
     (let normalized = normalize_authors (case authors of None \<Rightarrow> [] | Some as \<Rightarrow> as);
          bad = filter (offending parse_ok) normalized
      in if bad = [] then Inr normalized else Inl (ValueError (invalid_authors_message bad)))"
proof (cases authors)
  case None
  then show ?thesis by (simp add: validate_author_keys_def normalize_authors_def)
next
  case (Some as)
  show ?thesis
  proof (cases as)
    case Nil
    then show ?thesis using Some by (simp add: validate_author_keys_def normalize_authors_def)
  next
    case (Cons a rest)
    then show ?thesis using Some
      by (simp add: validate_author_keys_def Let_def author_errors_acc invalid_authors_message_def)
  qed
qed

lemma join_contains: "x \<in> set xs \<Longrightarrow> \<exists>ps ss. join sep xs = ps @ x @ ss"
proof (induction sep xs rule: join.induct)
  case (1 sep)
  then show ?case by simp
next
  case (2 sep y)
  then have "join sep [y] = [] @ x @ []" by simp
  then show ?case by blast
next
  case (3 sep y z rest)
  show ?case
  proof (cases "x = y")
    case True
    then have "join sep (y # z # rest) = [] @ x @ (sep @ join sep (z # rest))" by simp
    then show ?thesis by blast
  next
    case False
    then have "x \<in> set (z # rest)" using "3.prems" by simp
    then obtain ps ss where "join sep (z # rest) = ps @ x @ ss" using "3.IH" by blast
    then have "join sep (y # z # rest) = (y @ sep @ ps) @ x @ ss" by simp
    then show ?thesis by blast
  qed
qed

lemma message_names_offender:
  assumes "v \<in> set bad"
  shows "sublist v (invalid_authors_message bad)"
proof -
  have "describe_offender v \<in> set (map describe_offender bad)" using assms by simp
  then obtain ps ss where j: "join ''; '' (map describe_offender bad) = ps @ describe_offender v @ ss"
    using join_contains by blast
  obtain tl where d: "describe_offender v = v @ tl" by (simp add: describe_offender_def)
  have "invalid_authors_message bad =
          (''Authors must be npub or hex public keys. Invalid entries: '' @ ps) @ v @ (tl @ ss)"
    unfolding invalid_authors_message_def j d by simp
  then show ?thesis unfolding sublist_def by blast
qed

lemma not_space_nsec:
  "\<not> is_space CHR ''n''" "\<not> is_space CHR ''s''" "\<not> is_space CHR ''e''" "\<not> is_space CHR ''c''"
  by (simp_all add: is_space_def)

lemma strip_keeps_nsec:
  assumes "prefix ''nsec'' a"
  shows "prefix ''nsec'' (strip a)"
proof -
  obtain rest where a: "a = ''nsec'' @ rest" using assms by (auto simp: prefix_def)
  have d1: "dropWhile is_space a = a" unfolding a by (simp add: not_space_nsec)
  have r: "rev a = rev rest @ ''cesn''" unfolding a by simp
  have "\<exists>x. dropWhile is_space (rev a) = x @ ''cesn''"
  proof (cases "\<forall>c \<in> set (rev rest). is_space c")
    case True
    then have "dropWhile is_space (rev rest @ ''cesn'') = dropWhile is_space ''cesn''"
      by (intro dropWhile_append2) simp
    then have "dropWhile is_space (rev a) = [] @ ''cesn''"
      unfolding r by (simp add: not_space_nsec)
    then show ?thesis by blast
  next
    case False
    then have "dropWhile is_space (rev a) = dropWhile is_space (rev rest) @ ''cesn''"
      unfolding r by (simp add: dropWhile_append)
    then show ?thesis by blast
  qed
  then obtain x where x: "dropWhile is_space (rev a) = x @ ''cesn''" by blast
  have "strip a = ''nsec'' @ rev x" by (simp add: strip_def d1 x)
  then show ?thesis by (simp add: prefix_def)
qed

lemma strip_nonempty_nsec: "prefix ''nsec'' a \<Longrightarrow> strip a \<noteq> [] \<and> a \<noteq> []"
  using strip_keeps_nsec[of a] by (auto simp: prefix_def)

lemma raw_nsec_rejected:
  assumes "a \<in> set (case authors of None \<Rightarrow> [] | Some as \<Rightarrow> as)" and "prefix ''nsec'' a"
  shows "\<exists>m. validate_author_keys parse_ok authors = Inl (ValueError m)"
proof -
  let ?as = "case authors of None \<Rightarrow> [] | Some as \<Rightarrow> as"
  have "a \<in> set (filter (\<lambda>item. item \<noteq> [] \<and> strip item \<noteq> []) ?as)"
    using assms strip_nonempty_nsec[of a] by simp
  then have "strip a \<in> set (normalize_authors ?as)"
    unfolding normalize_authors_def by (simp add: image_iff) blast
  moreover have "offending parse_ok (strip a)"
    using strip_keeps_nsec[OF assms(2)] by (simp add: offending_def)
  ultimately have "strip a \<in> set (filter (offending parse_ok) (normalize_authors ?as))" by simp
  then have "filter (offending parse_ok) (normalize_authors ?as) \<noteq> []"
    by (metis empty_iff list.set(1))
  then show ?thesis by (simp add: validate_author_keys_eq Let_def)
qed

text \<open>
  The validation itself. Let the normalized values be the given values that are not
  blank, stripped of surrounding whitespace. If one of them starts with \<open>nsec\<close> or does
  not parse as a public key, the validation raises \<open>ValueError\<close>, and every such value
  stands in the message; otherwise it returns the normalized values. A given value
  that starts with \<open>nsec\<close> is always refused.
\<close>

theorem validate_author_keys_rejects:
  "(let normalized = normalize_authors (case authors of None \<Rightarrow> [] | Some as \<Rightarrow> as);
        bad = filter (offending parse_ok) normalized
    in (bad \<noteq> [] \<longrightarrow>
          validate_author_keys parse_ok authors = Inl (ValueError (invalid_authors_message bad)) \<and>
          (\<forall>v \<in> set bad. sublist v (invalid_authors_message bad))) \<and>
       (bad = [] \<longrightarrow> validate_author_keys parse_ok authors = Inr normalized)) \<and>
   (\<forall>a \<in> set (case authors of None \<Rightarrow> [] | Some as \<Rightarrow> as).
      prefix ''nsec'' a \<longrightarrow> (\<exists>m. validate_author_keys parse_ok authors = Inl (ValueError m)))"
proof -
  have a: "\<forall>a \<in> set (case authors of None \<Rightarrow> [] | Some as \<Rightarrow> as).
      prefix ''nsec'' a \<longrightarrow> (\<exists>m. validate_author_keys parse_ok authors = Inl (ValueError m))"
    using raw_nsec_rejected by blast
  have c: "let normalized = normalize_authors (case authors of None \<Rightarrow> [] | Some as \<Rightarrow> as);
        bad = filter (offending parse_ok) normalized
    in (bad \<noteq> [] \<longrightarrow>
          validate_author_keys parse_ok authors = Inl (ValueError (invalid_authors_message bad)) \<and>
          (\<forall>v \<in> set bad. sublist v (invalid_authors_message bad))) \<and>
       (bad = [] \<longrightarrow> validate_author_keys parse_ok authors = Inr normalized)"
    using message_names_offender by (simp add: validate_author_keys_eq Let_def)
  show ?thesis using a c by blast
qed

theorem validate_author_keys_rejects_witness:
  "validate_author_keys (\<lambda>v. v = ''npub1ok'')
     (Some ['' npub1ok '', ''nsec1bad'', ''junk'', ''  '']) =
     Inl (ValueError
       (''Authors must be npub or hex public keys. Invalid entries: '' @
        ''nsec1bad looks like a secret key (nsec); '' @
        ''junk is not a valid npub or hex public key'')) \<and>
   sublist ''junk''
     (''Authors must be npub or hex public keys. Invalid entries: '' @
      ''nsec1bad looks like a secret key (nsec); '' @
      ''junk is not a valid npub or hex public key'') \<and>
   validate_author_keys (\<lambda>v. v = ''npub1ok'') (Some ['' npub1ok '', ''  '']) =
     Inr [''npub1ok'']"
proof -
  let ?ok = "\<lambda>v. v = ''npub1ok''"
  let ?given = "['' npub1ok '', ''nsec1bad'', ''junk'', ''  '']"
  let ?msg = "''Authors must be npub or hex public keys. Invalid entries: '' @
        ''nsec1bad looks like a secret key (nsec); '' @
        ''junk is not a valid npub or hex public key''"
  have n1: "normalize_authors ?given = [''npub1ok'', ''nsec1bad'', ''junk'']"
    by (simp add: normalize_authors_def strip_def is_space_def)
  have n2: "normalize_authors ['' npub1ok '', ''  ''] = [''npub1ok'']"
    by (simp add: normalize_authors_def strip_def is_space_def)
  have b1: "filter (offending ?ok) [''npub1ok'', ''nsec1bad'', ''junk''] = [''nsec1bad'', ''junk'']"
    by (simp add: offending_def)
  have b2: "filter (offending ?ok) [''npub1ok''] = []"
    by (simp add: offending_def)
  have m: "invalid_authors_message [''nsec1bad'', ''junk''] = ?msg"
    by (simp add: invalid_authors_message_def describe_offender_def)
  note t1 = validate_author_keys_rejects[of "Some ?given" ?ok]
  note t2 = validate_author_keys_rejects[of "Some ['' npub1ok '', ''  '']" ?ok]
  have r1: "validate_author_keys ?ok (Some ?given) = Inl (ValueError ?msg)"
    and r2: "sublist ''junk'' ?msg"
    using t1[THEN conjunct1] unfolding Let_def option.case n1 b1 m by simp_all
  have r3: "validate_author_keys ?ok (Some ['' npub1ok '', ''  '']) = Inr [''npub1ok'']"
    using t2[THEN conjunct1] unfolding Let_def option.case n2 b2 by simp
  show ?thesis using r1 r2 r3 by simp
qed

lemma imported_authors_default:
  "prompt_value_optional
     (format_list_default (tags_to_map [(''authors'', ''nsec1secret'')] ''authors'')) [] =
   ''nsec1secret''"
  by (simp add: prompt_value_optional_def format_list_default_def tags_to_map_def
      setdefault_append_def strip_def)

lemma parse_imported_authors: "parse_list_value ''nsec1secret'' = [''nsec1secret'']"
  by (simp add: parse_list_value_def strip_def is_space_def)

lemma validate_imported_authors:
  "validate_author_keys (\<lambda>_. True) (Some [''nsec1secret'']) =
     Inl (ValueError
       (''Authors must be npub or hex public keys. Invalid entries: '' @
        ''nsec1secret looks like a secret key (nsec)''))"
  by (simp add: validate_author_keys_def normalize_authors_def strip_def is_space_def Let_def)

text \<open>
  C9 at an input where the code does not do what the claim says. The command
  \<^verbatim>\<open>/revise-ncc\<close> is given an identifier that has no draft and a JSON file whose tags
  hold the author \<open>nsec1secret\<close>; the user accepts the default at every prompt. The
  validation raises, as the claim says it must, and names the value. But the draft
  was inserted with the imported tags before the validation ran: the store that the
  command leaves holds the tag row \<open>authors = nsec1secret\<close>.
\<close>

theorem revise_ncc_import_persists_unvalidated:
  "revise_ncc_import (\<lambda>_. True) \<lparr>db_drafts = [], db_tags = []\<rparr> 1 100 200 ''ncc-02''
     (Some ''Imported'') ''seed'' [(''authors'', ''nsec1secret'')] accept_defaults =
   (\<lparr>db_drafts = [\<lparr>dr_id = 1, dr_kind = 30050, dr_d = ''ncc-02'',
                   dr_title = Some ''Imported'', dr_content = ''seed'', dr_created_at = 100,
                   dr_updated_at = 100, dr_published_at = None, dr_event_id = None,
                   dr_status = Some ''draft''\<rparr>],
     db_tags = [\<lparr>tg_draft_id = 1, tg_key = ''authors'', tg_value = ''nsec1secret''\<rparr>]\<rparr>,
    Inl (ValueError
      (''Authors must be npub or hex public keys. Invalid entries: '' @
       ''nsec1secret looks like a secret key (nsec)'')))"
  by (simp add: revise_ncc_import_def db_insert_draft_def db_set_tags_def Let_def
      accept_defaults_def imported_authors_default parse_imported_authors
      validate_imported_authors)

subsection \<open>The back-off delay\<close>

lemma rhe_of_int: "round_half_even (of_int k) = k"
  by (simp add: round_half_even_def)

lemma rhe_bounds: "\<lfloor>y\<rfloor> \<le> round_half_even y" "round_half_even y \<le> \<lfloor>y\<rfloor> + 1"
  by (simp_all add: round_half_even_def Let_def)

lemma rhe_mono:
  assumes "x \<le> y"
  shows "round_half_even x \<le> round_half_even y"
proof (cases "\<lfloor>x\<rfloor> = \<lfloor>y\<rfloor>")
  case True
  have "x - of_int \<lfloor>x\<rfloor> \<le> y - of_int \<lfloor>y\<rfloor>" using assms True by simp
  then show ?thesis using True by (auto simp: round_half_even_def Let_def)
next
  case False
  have "\<lfloor>x\<rfloor> \<le> \<lfloor>y\<rfloor>" using assms by (rule floor_mono)
  then have "\<lfloor>x\<rfloor> + 1 \<le> \<lfloor>y\<rfloor>" using False by simp
  then show ?thesis using rhe_bounds(2)[of x] rhe_bounds(1)[of y] by linarith
qed

text \<open>The binary exponent of a positive number.\<close>

lemma two_powr_int: "(2::real) powr (of_int k) = 2 powi k"
  by (rule powr_real_of_int') simp_all

lemma two_powr_int_Suc: "(2::real) powr (of_int k + 1) = 2 powi (k + 1)"
  using two_powr_int[of "k + 1"] by simp

lemma floor_log2_iff:
  assumes "0 < (x::real)"
  shows "\<lfloor>log 2 x\<rfloor> = k \<longleftrightarrow> 2 powi k \<le> x \<and> x < 2 powi (k + 1)"
  using floor_log_eq_powr_iff[of x 2 k] assms
  by (simp add: two_powr_int two_powr_int_Suc)

lemma floor_log2_bounds:
  assumes "0 < (x::real)"
  shows "2 powi \<lfloor>log 2 x\<rfloor> \<le> x" and "x < 2 powi (\<lfloor>log 2 x\<rfloor> + 1)"
  using floor_log2_iff[OF assms, of "\<lfloor>log 2 x\<rfloor>"] by simp_all

lemma floor_log2_eq:
  assumes "0 < (x::real)" and "2 powi k \<le> x" and "x < 2 powi (k + 1)"
  shows "\<lfloor>log 2 x\<rfloor> = k"
  using floor_log2_iff[OF assms(1), of k] assms(2,3) by simp

lemma floor_log2_mono:
  assumes "0 < (x::real)" and "x \<le> y"
  shows "\<lfloor>log 2 x\<rfloor> \<le> \<lfloor>log 2 y\<rfloor>"
proof -
  have "log 2 x \<le> log 2 y" using assms by simp
  then show ?thesis by (rule floor_mono)
qed

lemma binary64_pos:
  assumes "0 < x"
  shows "binary64 x = of_int (round_half_even (x / 2 powi ulp_exponent x)) * 2 powi ulp_exponent x"
  using assms by (simp add: binary64_def)

lemma ulp_exponent_mono:
  assumes "0 < x" and "x \<le> y"
  shows "ulp_exponent x \<le> ulp_exponent y"
proof -
  have "\<lfloor>log 2 x\<rfloor> \<le> \<lfloor>log 2 y\<rfloor>" by (rule floor_log2_mono[OF assms])
  then show ?thesis using assms by (simp add: ulp_exponent_def)
qed

lemma below_next_binade:
  assumes "0 < x"
  shows "x / 2 powi ulp_exponent x < 2 ^ 53"
proof -
  let ?e = "ulp_exponent x"
  have "\<lfloor>log 2 x\<rfloor> + 1 \<le> ?e + 53" using assms by (simp add: ulp_exponent_def)
  then have "(2::real) powi (\<lfloor>log 2 x\<rfloor> + 1) \<le> 2 powi (?e + 53)"
    by (intro power_int_increasing) simp_all
  then have "x < 2 powi (?e + 53)" using floor_log2_bounds(2)[OF assms] by linarith
  also have "\<dots> = 2 powi ?e * 2 ^ 53" by (simp add: power_int_add)
  finally show ?thesis by (simp add: field_simps)
qed

lemma above_binade:
  assumes "0 < x" and "- 1022 \<le> \<lfloor>log 2 x\<rfloor>"
  shows "2 ^ 52 \<le> x / 2 powi ulp_exponent x"
proof -
  let ?e = "ulp_exponent x"
  have e: "?e + 52 = \<lfloor>log 2 x\<rfloor>" using assms by (simp add: ulp_exponent_def)
  have "(2::real) powi (?e + 52) \<le> x" unfolding e by (rule floor_log2_bounds(1)[OF assms(1)])
  moreover have "(2::real) powi (?e + 52) = 2 powi ?e * 2 ^ 52" by (simp add: power_int_add)
  ultimately show ?thesis by (simp add: field_simps)
qed

lemma binary64_upper:
  assumes "0 < x"
  shows "binary64 x \<le> 2 powi (ulp_exponent x + 53)"
proof -
  let ?e = "ulp_exponent x"
  have "round_half_even (x / 2 powi ?e) \<le> round_half_even (of_int (2 ^ 53))"
    using below_next_binade[OF assms] by (intro rhe_mono) simp
  then have "round_half_even (x / 2 powi ?e) \<le> 2 ^ 53" by (simp only: rhe_of_int)
  then have "(of_int (round_half_even (x / 2 powi ?e)) :: real) \<le> of_int (2 ^ 53)"
    by (simp only: of_int_le_iff)
  then have "real_of_int (round_half_even (x / 2 powi ?e)) * 2 powi ?e \<le>
             real_of_int (2 ^ 53) * 2 powi ?e"
    by (intro mult_right_mono) simp_all
  also have "\<dots> = 2 powi (?e + 53)" by (simp add: power_int_add)
  finally show ?thesis by (simp add: binary64_pos[OF assms])
qed

lemma binary64_lower:
  assumes "0 < x" and "- 1022 \<le> \<lfloor>log 2 x\<rfloor>"
  shows "2 powi (ulp_exponent x + 52) \<le> binary64 x"
proof -
  let ?e = "ulp_exponent x"
  have "round_half_even (of_int (2 ^ 52)) \<le> round_half_even (x / 2 powi ?e)"
    using above_binade[OF assms] by (intro rhe_mono) simp
  then have "2 ^ 52 \<le> round_half_even (x / 2 powi ?e)" by (simp only: rhe_of_int)
  then have "(of_int (2 ^ 52) :: real) \<le> of_int (round_half_even (x / 2 powi ?e))"
    by (simp only: of_int_le_iff)
  then have m: "real_of_int (2 ^ 52) * 2 powi ?e \<le>
             real_of_int (round_half_even (x / 2 powi ?e)) * 2 powi ?e"
    by (intro mult_right_mono) simp_all
  have "(2::real) powi (?e + 52) = real_of_int (2 ^ 52) * 2 powi ?e"
    by (simp add: power_int_add)
  also note m
  finally show ?thesis by (simp only: binary64_pos[OF assms(1)])
qed

lemma binary64_mono:
  assumes "0 < x" and "x \<le> y"
  shows "binary64 x \<le> binary64 y"
proof -
  have y: "0 < y" using assms by simp
  have le: "ulp_exponent x \<le> ulp_exponent y" by (rule ulp_exponent_mono[OF assms])
  show ?thesis
  proof (cases "ulp_exponent x = ulp_exponent y")
    case True
    let ?e = "ulp_exponent y"
    have "x / 2 powi ?e \<le> y / 2 powi ?e" using assms by (simp add: divide_right_mono)
    then have "round_half_even (x / 2 powi ?e) \<le> round_half_even (y / 2 powi ?e)"
      by (rule rhe_mono)
    then have "(of_int (round_half_even (x / 2 powi ?e)) :: real) \<le>
               of_int (round_half_even (y / 2 powi ?e))" by (simp only: of_int_le_iff)
    then have "real_of_int (round_half_even (x / 2 powi ?e)) * 2 powi ?e \<le>
               real_of_int (round_half_even (y / 2 powi ?e)) * 2 powi ?e"
      by (intro mult_right_mono) simp_all
    then show ?thesis by (simp add: binary64_pos[OF assms(1)] binary64_pos[OF y] True)
  next
    case False
    then have lt: "ulp_exponent x + 1 \<le> ulp_exponent y" using le by simp
    have "max \<lfloor>log 2 \<bar>x\<bar>\<rfloor> (- 1022) + 1 \<le> max \<lfloor>log 2 \<bar>y\<bar>\<rfloor> (- 1022)"
      using lt unfolding ulp_exponent_def by linarith
    then have "- 1022 < \<lfloor>log 2 \<bar>y\<bar>\<rfloor>" by linarith
    then have "- 1022 \<le> \<lfloor>log 2 y\<rfloor>" using y by simp
    then have low: "2 powi (ulp_exponent y + 52) \<le> binary64 y" by (rule binary64_lower[OF y])
    have "binary64 x \<le> 2 powi (ulp_exponent x + 53)" by (rule binary64_upper[OF assms(1)])
    also have "\<dots> \<le> 2 powi (ulp_exponent y + 52)"
      using lt by (intro power_int_increasing) simp_all
    finally show ?thesis using low by linarith
  qed
qed

lemma binary64_eval:
  assumes "0 < x" and "2 powi k \<le> x" and "x < 2 powi (k + 1)" and "- 1022 \<le> k"
  shows "binary64 x = of_int (round_half_even (x / 2 powi (k - 52))) * 2 powi (k - 52)"
proof -
  have "\<lfloor>log 2 x\<rfloor> = k" by (rule floor_log2_eq[OF assms(1,2,3)])
  then have "ulp_exponent x = k - 52" using assms(1,4) by (simp add: ulp_exponent_def)
  then show ?thesis by (simp add: binary64_pos[OF assms(1)])
qed

lemma binary64_of_int:
  assumes "0 < i" and "i < 2 ^ 53"
  shows "binary64 (of_int i) = of_int i"
proof -
  let ?x = "real_of_int i"
  let ?L = "\<lfloor>log 2 ?x\<rfloor>"
  have x: "0 < ?x" using assms(1) by simp
  have "(2::real) powi 0 \<le> ?x" using assms(1) by simp
  then have b: "(2::real) powi 0 < 2 powi (?L + 1)" using floor_log2_bounds(2)[OF x] by linarith
  have "\<not> ?L + 1 \<le> 0"
  proof
    assume "?L + 1 \<le> 0"
    then have "(2::real) powi (?L + 1) \<le> 2 powi 0" by (intro power_int_increasing) simp_all
    then show False using b by linarith
  qed
  then have l0: "0 \<le> ?L" by linarith
  have "?x < 2 powi 53" using assms(2) by (simp flip: of_int_less_iff)
  then have c: "(2::real) powi ?L < 2 powi 53" using floor_log2_bounds(1)[OF x] by linarith
  have "\<not> 53 \<le> ?L"
  proof
    assume "53 \<le> ?L"
    then have "(2::real) powi 53 \<le> 2 powi ?L" by (intro power_int_increasing) simp_all
    then show False using c by linarith
  qed
  then have l1: "?L \<le> 52" by linarith
  define n where "n = nat (52 - ?L)"
  have u: "ulp_exponent ?x = max ?L (- 1022) - 52"
    unfolding ulp_exponent_def by (simp only: abs_of_pos[OF x])
  have m: "max ?L (- 1022) = ?L" using l0 by linarith
  have n: "int n = 52 - ?L" using l1 unfolding n_def by linarith
  have e: "ulp_exponent ?x = - int n" unfolding u m n by linarith
  have p: "(2::real) powi (- int n) = 1 / 2 ^ n" by (simp add: power_int_minus field_simps)
  have d: "?x / 2 powi (- int n) = of_int (i * 2 ^ n)" by (simp add: p)
  have "binary64 ?x = of_int (round_half_even (of_int (i * 2 ^ n))) * 2 powi (- int n)"
    unfolding binary64_pos[OF x] e d ..
  also have "\<dots> = of_int (i * 2 ^ n) * (1 / 2 ^ n)" by (simp only: rhe_of_int p)
  also have "\<dots> = ?x" by simp
  finally show ?thesis .
qed

lemma QUEUE_JITTER_value: "QUEUE_JITTER = 7205759403792794 / 36028797018963968"
proof -
  have "binary64 (1 / 5) =
          of_int (round_half_even ((1 / 5) / 2 powi (- 3 - 52))) * 2 powi (- 3 - 52)"
    by (rule binary64_eval) (simp_all add: power_int_minus)
  also have "\<dots> = 7205759403792794 / 36028797018963968"
    by (simp add: power_int_minus round_half_even_def Let_def)
  finally show ?thesis by (simp add: QUEUE_JITTER_def)
qed

lemma jitter_least: "binary64 (1 - QUEUE_JITTER) = 7205759403792794 / 9007199254740992"
proof -
  have "binary64 (1 - QUEUE_JITTER) =
          of_int (round_half_even ((1 - QUEUE_JITTER) / 2 powi (- 1 - 52))) * 2 powi (- 1 - 52)"
    by (rule binary64_eval) (simp_all add: power_int_minus QUEUE_JITTER_value)
  also have "\<dots> = 7205759403792794 / 9007199254740992"
    by (simp add: power_int_minus round_half_even_def Let_def QUEUE_JITTER_value)
  finally show ?thesis .
qed

lemma jitter_greatest: "binary64 (1 + QUEUE_JITTER) = 5404319552844595 / 4503599627370496"
proof -
  have "binary64 (1 + QUEUE_JITTER) =
          of_int (round_half_even ((1 + QUEUE_JITTER) / 2 powi (0 - 52))) * 2 powi (0 - 52)"
    by (rule binary64_eval) (simp_all add: power_int_minus QUEUE_JITTER_value)
  also have "\<dots> = 5404319552844595 / 4503599627370496"
    by (simp add: power_int_minus round_half_even_def Let_def QUEUE_JITTER_value)
  finally show ?thesis .
qed

lemma retry_jitter_bounds:
  assumes "- QUEUE_JITTER \<le> u" and "u \<le> QUEUE_JITTER"
  shows "4 / 5 \<le> retry_jitter u" and "retry_jitter u \<le> 6 / 5"
proof -
  have pos: "0 < 1 - QUEUE_JITTER" by (simp add: QUEUE_JITTER_value)
  have "binary64 (1 - QUEUE_JITTER) \<le> binary64 (1 + u)"
    using assms(1) by (intro binary64_mono[OF pos]) simp
  then show "4 / 5 \<le> retry_jitter u" by (simp add: retry_jitter_def jitter_least)
  have pos': "0 < 1 + u" using pos assms(1) by linarith
  have "binary64 (1 + u) \<le> binary64 (1 + QUEUE_JITTER)"
    using assms(2) by (intro binary64_mono[OF pos']) simp
  then show "retry_jitter u \<le> 6 / 5" by (simp add: retry_jitter_def jitter_greatest)
qed

lemma retry_base_eq:
  "1 \<le> n \<Longrightarrow> retry_base n = min 3600 (30 * 2 ^ nat (n - 1))"
  by (simp add: retry_base_def QUEUE_MAX_DELAY_def QUEUE_BASE_DELAY_def max_def)

lemma retry_base_mono:
  assumes "m \<le> n"
  shows "retry_base m \<le> retry_base n"
proof -
  have "nat (max (m - 1) 0) \<le> nat (max (n - 1) 0)" using assms by simp
  then have "(2::int) ^ nat (max (m - 1) 0) \<le> 2 ^ nat (max (n - 1) 0)"
    by (intro power_increasing) simp_all
  then have "QUEUE_BASE_DELAY * 2 ^ nat (max (m - 1) 0) \<le>
             QUEUE_BASE_DELAY * 2 ^ nat (max (n - 1) 0)"
    by (intro mult_left_mono) (simp_all add: QUEUE_BASE_DELAY_def)
  then show ?thesis unfolding retry_base_def by (rule min.mono[OF order_refl])
qed

lemma four_fifths_base: "4 * min 3600 (30 * k) = 5 * min 2880 (24 * (k::int))"
  by (simp add: min_def)

lemma compute_retry_delay_range:
  assumes "1 \<le> n" and "- QUEUE_JITTER \<le> u" and "u \<le> QUEUE_JITTER"
  shows "min 2880 (24 * 2 ^ nat (n - 1)) \<le> compute_retry_delay n u"
    and "compute_retry_delay n u \<le> 4320"
proof -
  let ?k = "(2::int) ^ nat (n - 1)"
  let ?b = "min 3600 (30 * ?k)"
  let ?N = "min 2880 (24 * ?k)"
  let ?j = "retry_jitter u"
  let ?p = "real_of_int ?b * ?j"
  have k: "1 \<le> ?k" by simp
  have b: "retry_base n = ?b" by (rule retry_base_eq[OF assms(1)])
  have j: "4 / 5 \<le> ?j" "?j \<le> 6 / 5" by (rule retry_jitter_bounds[OF assms(2,3)])+
  have bpos: "0 < ?b" using k by simp
  have b_le: "?b \<le> 3600" by simp
  have Npos: "0 < ?N" using k by simp
  have N_le: "?N \<le> 2880" by simp
  have "real_of_int (4 * ?b) = real_of_int (5 * ?N)" by (simp only: four_fifths_base)
  then have bN: "real_of_int ?b * (4 / 5) = real_of_int ?N" by simp
  have "real_of_int ?b * (4 / 5) \<le> ?p" using j(1) bpos by (intro mult_left_mono) simp_all
  then have lo: "real_of_int ?N \<le> ?p" using bN by linarith
  have "?p \<le> real_of_int ?b * (6 / 5)" using j(2) bpos by (intro mult_left_mono) simp_all
  also have "\<dots> \<le> 3600 * (6 / 5)" using b_le by simp
  finally have hi: "?p \<le> real_of_int 4320" by simp
  have "0 < real_of_int ?N" using Npos by (simp only: of_int_0_less_iff)
  then have ppos: "0 < ?p" using lo by linarith
  have "binary64 (real_of_int ?N) \<le> binary64 ?p"
    using Npos by (intro binary64_mono[OF _ lo]) simp
  moreover have "binary64 (real_of_int ?N) = real_of_int ?N"
    using Npos N_le by (intro binary64_of_int) simp_all
  ultimately have rlo: "real_of_int ?N \<le> binary64 ?p" by simp
  have "binary64 ?p \<le> binary64 (real_of_int 4320)" by (rule binary64_mono[OF ppos hi])
  moreover have "binary64 (real_of_int 4320) = real_of_int 4320"
    by (intro binary64_of_int) simp_all
  ultimately have rhi: "binary64 ?p \<le> real_of_int 4320" by simp
  have nonneg: "0 \<le> binary64 ?p" using rlo Npos by linarith
  have f: "py_int (binary64 ?p) = \<lfloor>binary64 ?p\<rfloor>" using nonneg by (simp add: py_int_def)
  have flo: "?N \<le> \<lfloor>binary64 ?p\<rfloor>" using rlo by (simp only: le_floor_iff)
  have fhi: "\<lfloor>binary64 ?p\<rfloor> \<le> 4320" using rhi by (simp add: floor_le_iff)
  have d: "compute_retry_delay n u = max 1 \<lfloor>binary64 ?p\<rfloor>"
    by (simp only: compute_retry_delay_def b f)
  show "?N \<le> compute_retry_delay n u" unfolding d using flo by linarith
  show "compute_retry_delay n u \<le> 4320" unfolding d using fhi by linarith
qed

lemma delay_1_0: "compute_retry_delay 1 0 = 30"
proof -
  have "binary64 1 = 1" using binary64_of_int[of 1] by simp
  moreover have "binary64 30 = 30" using binary64_of_int[of 30] by simp
  ultimately show ?thesis
    by (simp add: compute_retry_delay_def retry_base_def QUEUE_MAX_DELAY_def QUEUE_BASE_DELAY_def
        retry_jitter_def py_int_def)
qed

lemma retry_base_1: "retry_base 1 = 30"
  by (simp add: retry_base_def QUEUE_MAX_DELAY_def QUEUE_BASE_DELAY_def)

lemma delay_least_draw: "compute_retry_delay 1 (- QUEUE_JITTER) = 24"
proof -
  let ?p = "30 * (7205759403792794 / 9007199254740992) :: real"
  have j: "retry_jitter (- QUEUE_JITTER) = 7205759403792794 / 9007199254740992"
    using jitter_least by (simp add: retry_jitter_def)
  have "binary64 ?p = of_int (round_half_even (?p / 2 powi (4 - 52))) * 2 powi (4 - 52)"
    by (rule binary64_eval) (simp_all add: power_int_minus)
  also have "\<dots> = 24" by (simp add: power_int_minus round_half_even_def Let_def)
  finally have "binary64 ?p = 24" .
  then show ?thesis by (simp add: compute_retry_delay_def retry_base_1 j py_int_def)
qed

lemma delay_greatest_draw: "compute_retry_delay 1 QUEUE_JITTER = 36"
proof -
  let ?p = "30 * (5404319552844595 / 4503599627370496) :: real"
  have j: "retry_jitter QUEUE_JITTER = 5404319552844595 / 4503599627370496"
    using jitter_greatest by (simp add: retry_jitter_def)
  have "binary64 ?p = of_int (round_half_even (?p / 2 powi (5 - 52))) * 2 powi (5 - 52)"
    by (rule binary64_eval) (simp_all add: power_int_minus)
  also have "\<dots> = 36" by (simp add: power_int_minus round_half_even_def Let_def)
  finally have "binary64 ?p = 36" .
  then show ?thesis by (simp add: compute_retry_delay_def retry_base_1 j py_int_def)
qed

text \<open>
  C4. For an attempt number \<open>n \<ge> 1\<close> and a draw \<open>u\<close> between \<open>- QUEUE_JITTER\<close> and
  \<open>QUEUE_JITTER\<close>: the base is \<open>min 3600 (30 * 2 ^ (n - 1))\<close>, the factor is the double
  \<open>1 + u\<close>, which lies between 0.8 and 1.2, and the delay is their product in doubles,
  truncated to an integer and raised to 1 when it is less. The delay is at least
  \<open>min 2880 (24 * 2 ^ (n - 1))\<close>, that is 0.8 times the base, and at most 4320, that
  is 1.2 times 3600, and the base does not decrease with the attempt number. The
  closed conjuncts give the double that \<^verbatim>\<open>0.2\<close> denotes, the least factor (the double
  nearest to 0.8, reached through a tie), and the first delay at the least draw, at
  the draw 0 and at the greatest draw: 24, 30 and 36 seconds. (That the draw is
  uniform is a property of the library's generator and is not stated here.)
\<close>

theorem compute_retry_delay_bounds:
  assumes "1 \<le> n" and "- QUEUE_JITTER \<le> u" and "u \<le> QUEUE_JITTER"
  shows
    "retry_base n = min 3600 (30 * 2 ^ nat (n - 1)) \<and>
     retry_jitter u = binary64 (1 + u) \<and>
     compute_retry_delay n u =
       max 1 (py_int (binary64 (of_int (min 3600 (30 * 2 ^ nat (n - 1))) * binary64 (1 + u)))) \<and>
     4 / 5 \<le> binary64 (1 + u) \<and> binary64 (1 + u) \<le> 6 / 5 \<and>
     min 2880 (24 * 2 ^ nat (n - 1)) \<le> compute_retry_delay n u \<and>
     compute_retry_delay n u \<le> 4320 \<and>
     1 \<le> compute_retry_delay n u \<and>
     (\<forall>m. m \<le> n \<longrightarrow> retry_base m \<le> retry_base n) \<and>
     QUEUE_JITTER = 3602879701896397 / 18014398509481984 \<and>
     binary64 (1 - QUEUE_JITTER) = 3602879701896397 / 4503599627370496 \<and>
     compute_retry_delay 1 (- QUEUE_JITTER) = 24 \<and>
     compute_retry_delay 1 0 = 30 \<and>
     compute_retry_delay 1 QUEUE_JITTER = 36"
proof -
  have b: "retry_base n = min 3600 (30 * 2 ^ nat (n - 1))" by (rule retry_base_eq[OF assms(1)])
  have j: "retry_jitter u = binary64 (1 + u)" by (simp add: retry_jitter_def)
  have a: "compute_retry_delay n u =
       max 1 (py_int (binary64 (of_int (min 3600 (30 * 2 ^ nat (n - 1))) * binary64 (1 + u))))"
    by (simp only: compute_retry_delay_def b j)
  have one: "1 \<le> compute_retry_delay n u" by (simp add: compute_retry_delay_def)
  have f: "4 / 5 \<le> binary64 (1 + u)" "binary64 (1 + u) \<le> 6 / 5"
    using retry_jitter_bounds[OF assms(2,3)] by (simp_all only: j)
  have q: "QUEUE_JITTER = 3602879701896397 / 18014398509481984"
    by (simp add: QUEUE_JITTER_value)
  have l: "binary64 (1 - QUEUE_JITTER) = 3602879701896397 / 4503599627370496"
    by (simp add: jitter_least)
  show ?thesis
    using b j a f one compute_retry_delay_range[OF assms] retry_base_mono q l
      delay_least_draw delay_1_0 delay_greatest_draw
    by blast
qed

theorem compute_retry_delay_bounds_witness:
  "(1::int) \<le> 1 \<and> - QUEUE_JITTER \<le> 0 \<and> 0 \<le> QUEUE_JITTER \<and>
   24 \<le> compute_retry_delay 1 0 \<and> compute_retry_delay 1 0 \<le> 4320 \<and>
   (1::int) \<le> 9 \<and> - QUEUE_JITTER \<le> QUEUE_JITTER \<and>
   2880 \<le> compute_retry_delay 9 QUEUE_JITTER \<and> compute_retry_delay 9 QUEUE_JITTER \<le> 4320 \<and>
   retry_base 1 \<le> retry_base 9"
proof -
  have j: "- QUEUE_JITTER \<le> 0" "0 \<le> QUEUE_JITTER" "- QUEUE_JITTER \<le> QUEUE_JITTER"
    by (simp_all add: QUEUE_JITTER_value)
  have o: "(1::int) \<le> 1" "(1::int) \<le> 9" by simp_all
  note t1 = compute_retry_delay_bounds[OF o(1) j(1) j(2),
      THEN conjunct2, THEN conjunct2, THEN conjunct2, THEN conjunct2, THEN conjunct2]
  note t9 = compute_retry_delay_bounds[OF o(2) j(3) order_refl,
      THEN conjunct2, THEN conjunct2, THEN conjunct2, THEN conjunct2, THEN conjunct2]
  have a: "24 \<le> compute_retry_delay 1 0 \<and> compute_retry_delay 1 0 \<le> 4320"
    using t1[THEN conjunct1] t1[THEN conjunct2, THEN conjunct1] by simp
  have b: "2880 \<le> compute_retry_delay 9 QUEUE_JITTER \<and>
           compute_retry_delay 9 QUEUE_JITTER \<le> 4320 \<and> retry_base 1 \<le> retry_base 9"
    using t9[THEN conjunct1] t9[THEN conjunct2, THEN conjunct1]
      t9[THEN conjunct2, THEN conjunct2, THEN conjunct2, THEN conjunct1, rule_format, of 1]
    by simp
  show ?thesis using j a b by simp
qed

end
